theory Spec2Isabelle
  imports Complex_Main
begin

section \<open>JavaScript values and control flow\<close>

text \<open>
  The trading-decision engine is TypeScript, and its numbers are binary64 floating-point
  numbers. Here a price, a share count or a threshold is a finite \<^typ>\<open>real\<close> (the
  quote client rejects NaN and non-positive prices before a sample reaches the engine), an
  array index or a counter is an \<^typ>\<open>int\<close>, and a computed number that JavaScript may
  make non-finite is a \<open>jsnum\<close>. The gain, loss and percentage fields that the detectors
  store are computed as the code computes them, every operation rounded to binary64. The
  comparisons of prices do not depend on rounding. The arithmetic of the overlay and of the
  simulated price check is exact: its rounding is not modelled. Zero has no sign.
\<close>

datatype error = TypeError

definition bind_err :: "error + 'a \<Rightarrow> ('a \<Rightarrow> error + 'b) \<Rightarrow> error + 'b" where
  "bind_err m f = (case m of Inl e \<Rightarrow> Inl e | Inr x \<Rightarrow> f x)"

text \<open>
  \<open>xs[i].field\<close>: an index outside the array reads \<open>undefined\<close>, and reading a
  property of \<open>undefined\<close> throws a TypeError.
\<close>

definition elem_at :: "'a list \<Rightarrow> int \<Rightarrow> error + 'a" where
  "elem_at xs i =
     (if 0 \<le> i \<and> i < int (length xs) then Inr (xs ! nat i) else Inl TypeError)"

text \<open>
  \<open>xs[i]\<close> on an array of numbers: out of range it is \<open>undefined\<close> (here None),
  and every comparison with \<open>undefined\<close> is false.
\<close>

definition num_at :: "real list \<Rightarrow> int \<Rightarrow> real option" where
  "num_at xs i = (if 0 \<le> i \<and> i < int (length xs) then Some (xs ! nat i) else None)"

definition js_lt :: "real option \<Rightarrow> real option \<Rightarrow> bool" where
  "js_lt a b = (case (a, b) of (Some x, Some y) \<Rightarrow> x < y | _ \<Rightarrow> False)"

text \<open>\<open>xs.forEach\<close> and the counting \<open>for\<close> loop, stopping at the first throw.\<close>

fun for_each :: "'a list \<Rightarrow> ('a \<Rightarrow> 's \<Rightarrow> error + 's) \<Rightarrow> 's \<Rightarrow> error + 's" where
  "for_each [] body s = Inr s"
| "for_each (x # xs) body s =
     (case body x s of Inl e \<Rightarrow> Inl e | Inr s' \<Rightarrow> for_each xs body s')"

text \<open>The indices \<open>i = a; i < b; i++\<close>.\<close>

definition index_range :: "int \<Rightarrow> int \<Rightarrow> int list" where
  "index_range a b = [a..b - 1]"

text \<open>\<open>xs.slice(a, b)\<close>: a negative bound counts from the end, and both are clamped.\<close>

definition slice_bound :: "nat \<Rightarrow> int \<Rightarrow> nat" where
  "slice_bound n k = (if k < 0 then nat (max (int n + k) 0) else min (nat k) n)"

definition js_slice :: "'a list \<Rightarrow> int \<Rightarrow> int \<Rightarrow> 'a list" where
  "js_slice xs a b =
     (let from = slice_bound (length xs) a; to = slice_bound (length xs) b
      in take (to - from) (drop from xs))"

definition js_slice_from :: "'a list \<Rightarrow> int \<Rightarrow> 'a list" where
  "js_slice_from xs a = drop (slice_bound (length xs) a) xs"

datatype jsnum = Fin real | PosInf | NegInf | NaN

text \<open>Division, scaling and comparison as the overlay uses them, without rounding.\<close>

definition js_div :: "real \<Rightarrow> real \<Rightarrow> jsnum" where
  "js_div x y =
     (if y = 0 then (if x = 0 then NaN else if 0 < x then PosInf else NegInf)
      else Fin (x / y))"

fun js_times :: "jsnum \<Rightarrow> real \<Rightarrow> jsnum" where
  "js_times (Fin x) k = Fin (x * k)"
| "js_times PosInf k = (if k = 0 then NaN else if 0 < k then PosInf else NegInf)"
| "js_times NegInf k = (if k = 0 then NaN else if 0 < k then NegInf else PosInf)"
| "js_times NaN k = NaN"

fun js_ge :: "jsnum \<Rightarrow> real \<Rightarrow> bool" where
  "js_ge (Fin x) t = (t \<le> x)"
| "js_ge PosInf t = True"
| "js_ge NegInf t = False"
| "js_ge NaN t = False"

subsection \<open>Binary64 rounding\<close>

text \<open>
  The result of \<open>-\<close>, \<open>/\<close> and \<open>*\<close> on JavaScript numbers is the exact result rounded
  to the nearest binary64 number, a tie going to the even significand (IEEE 754). \<open>f64 x\<close>
  is that rounding of the real \<open>x\<close>: with \<open>e\<close> the exponent of the last bit of the
  53-bit significand (never below \<open>-1074\<close>, where the subnormal numbers lie),
  \<open>\<bar>x\<bar> / 2 ^ e\<close> is rounded to an integer; a result of \<open>2 ^ 1024\<close> or more is
  Infinity.
\<close>

definition pow2 :: "int \<Rightarrow> real" where
  "pow2 k = (if 0 \<le> k then 2 ^ nat k else 1 / 2 ^ nat (- k))"

function exp_down :: "real \<Rightarrow> int \<Rightarrow> int" where
  "exp_down a e = (if - 1074 < e \<and> a < pow2 (e + 52) then exp_down a (e - 1) else e)"
  by pat_completeness auto
termination
  by (relation "measure (\<lambda>(a, e). nat (e + 1074))") auto

function exp_up :: "real \<Rightarrow> int \<Rightarrow> int" where
  "exp_up a e = (if e < 971 \<and> pow2 (e + 53) \<le> a then exp_up a (e + 1) else e)"
  by pat_completeness auto
termination
  by (relation "measure (\<lambda>(a, e). nat (971 - e))") auto

declare exp_down.simps [simp del] exp_up.simps [simp del]

definition quantum_exp :: "real \<Rightarrow> int" where
  "quantum_exp a = (if pow2 53 \<le> a then exp_up a 0 else exp_down a 0)"

definition round_half_even :: "real \<Rightarrow> int" where
  "round_half_even x =
     (let f = \<lfloor>x\<rfloor>; r = x - of_int f
      in if r < 1 / 2 then f else if 1 / 2 < r then f + 1 else if even f then f else f + 1)"

definition f64 :: "real \<Rightarrow> jsnum" where
  "f64 x =
     (if x = 0 then Fin 0
      else
        let a = \<bar>x\<bar>; e = quantum_exp a;
            m = of_int (round_half_even (a / pow2 e)) * pow2 e
        in if pow2 1024 \<le> m then (if 0 < x then PosInf else NegInf)
           else Fin (if x < 0 then - m else m))"

text \<open>\<open>x - y\<close> on two finite numbers, \<open>x / y\<close> and \<open>x * k\<close> on a finite \<open>y\<close> and \<open>k\<close>.\<close>

definition f64_sub :: "real \<Rightarrow> real \<Rightarrow> jsnum" where
  "f64_sub x y = f64 (x - y)"

fun f64_div :: "jsnum \<Rightarrow> real \<Rightarrow> jsnum" where
  "f64_div (Fin x) y =
     (if y = 0 then (if x = 0 then NaN else if 0 < x then PosInf else NegInf)
      else f64 (x / y))"
| "f64_div PosInf y = (if y < 0 then NegInf else PosInf)"
| "f64_div NegInf y = (if y < 0 then PosInf else NegInf)"
| "f64_div NaN y = NaN"

fun f64_mul :: "jsnum \<Rightarrow> real \<Rightarrow> jsnum" where
  "f64_mul (Fin x) k = f64 (x * k)"
| "f64_mul PosInf k = (if k = 0 then NaN else if 0 < k then PosInf else NegInf)"
| "f64_mul NegInf k = (if k = 0 then NaN else if 0 < k then NegInf else PosInf)"
| "f64_mul NaN k = NaN"

text \<open>
  \<open>x.toFixed(2)\<close> prints the multiple of 0.01 nearest to the exact value of \<open>x\<close>, a tie
  going away from zero (\<open>round2\<close>); from \<open>10 ^ 21\<close> on it prints \<open>x\<close> itself, and
  Infinity and NaN print as themselves. \<open>parseFloat\<close> reads the printed decimal back
  as the nearest binary64 number.
\<close>

definition round2 :: "real \<Rightarrow> real" where
  "round2 x =
     (if x < 0 then - (of_int \<lfloor>- x * 100 + 1 / 2\<rfloor> / 100)
      else of_int \<lfloor>x * 100 + 1 / 2\<rfloor> / 100)"

fun parse_fixed2 :: "jsnum \<Rightarrow> jsnum" where
  "parse_fixed2 (Fin x) = (if 10 ^ 21 \<le> \<bar>x\<bar> then Fin x else f64 (round2 x))"
| "parse_fixed2 v = v"

text \<open>\<open>x || d\<close> on an optional number, string or boolean: undefined, 0 and '' are falsy.\<close>

definition num_or :: "real option \<Rightarrow> real \<Rightarrow> real" where
  "num_or v d = (case v of None \<Rightarrow> d | Some x \<Rightarrow> if x = 0 then d else x)"

definition str_or :: "string option \<Rightarrow> string \<Rightarrow> string" where
  "str_or v d = (case v of None \<Rightarrow> d | Some s \<Rightarrow> if s = [] then d else s)"

definition truthy :: "bool option \<Rightarrow> bool" where
  "truthy v = (v = Some True)"

text \<open>
  A template literal is kept as the list of its pieces: literal text, \<open>x.toFixed(d)\<close>
  and \<open>${x}\<close>. Two literals with the same pieces print the same string.
\<close>

datatype piece = Txt string | ToFixed nat jsnum | NumStr real

section \<open>Data model\<close>

record StockData =
  timestamp :: int
  price :: real
  volume :: int
  open_price :: "real option"
  high :: "real option"
  low :: "real option"
  close_price :: "real option"

datatype change_type = peak | valley

record DirectionChangePoint =
  dcp_index :: int
  dcp_timestamp :: int
  dcp_price :: real
  dcp_type :: change_type

text \<open>
  Of a TradingBot the fields that the decision engine reads: \<open>isActive\<close>, the settings
  and the open position. Identity, statistics and sizing fields are never read by it.
\<close>

record BotSettings =
  tradingMethod :: "string option"
  dollarDropThreshold :: "real option"
  dollarDropEnabled :: "bool option"
  profitTakingEnabled :: "bool option"
  profitTakingPercentage :: "real option"
  profitTakingDollarAmount :: "real option"
  dollarDropTriggerAmount :: "real option"
  sellAtBuyPriceEnabled :: "bool option"
  consecutiveFallsEnabled :: "bool option"
  consecutiveFallsCount :: "real option"
  confirmedRecoveryFirstDelay :: "real option"
  confirmedRecoverySecondDelay :: "real option"

record Position =
  buyPrice :: real
  shares :: real
  pos_timestamp :: int
  consecutiveFalls :: "int option"
  lastPrice :: "real option"
  priceHistory :: "real list option"

record TradingBot =
  isActive :: bool
  settings :: BotSettings
  currentPosition :: "Position option"

text \<open>The \<open>Partial<currentPosition>\<close> that the overlay proposes.\<close>

record PositionUpdate =
  upd_priceHistory :: "real list"
  upd_consecutiveFalls :: int

record DollarDropResult =
  dd_shouldSell :: bool
  dd_reason :: "piece list"
  dd_updatePosition :: "PositionUpdate option"

datatype action = BUY | SELL | HOLD

text \<open>
  An optional, nullable field is an option of an option: None when the key is absent,
  \<open>Some None\<close> when it is null.
\<close>

record Decision =
  action :: action
  reason :: "piece list"
  referencePoint :: "DirectionChangePoint option option"
  newDirectionChange :: "DirectionChangePoint option option"
  updatePosition :: "PositionUpdate option"

section \<open>Direction-change points\<close>

text \<open>The body of the loop of \<open>getDirectionChangePoints\<close>, at index \<open>i\<close>.\<close>

definition push_direction_change ::
  "StockData list \<Rightarrow> int \<Rightarrow> DirectionChangePoint list \<Rightarrow> error + DirectionChangePoint list"
where
  "push_direction_change data i directionChanges =
     bind_err (elem_at data (i - 1)) (\<lambda>prev.
     bind_err (elem_at data i) (\<lambda>cur.
     bind_err (elem_at data (i + 1)) (\<lambda>next.
       let prevPrice = price prev; currentPrice = price cur; nextPrice = price next;
           isLocalMin = (prevPrice > currentPrice \<and> currentPrice < nextPrice);
           isLocalMax = (prevPrice < currentPrice \<and> currentPrice > nextPrice)
       in if isLocalMin then
            Inr (directionChanges @
              [\<lparr>dcp_index = i, dcp_timestamp = timestamp cur, dcp_price = currentPrice,
                dcp_type = valley\<rparr>])
          else if isLocalMax then
            Inr (directionChanges @
              [\<lparr>dcp_index = i, dcp_timestamp = timestamp cur, dcp_price = currentPrice,
                dcp_type = peak\<rparr>])
          else Inr directionChanges)))"

definition getDirectionChangePoints :: "StockData list \<Rightarrow> error + DirectionChangePoint list" where
  "getDirectionChangePoints data =
     (if length data < 3 then Inr []
      else for_each (index_range 1 (int (length data) - 1)) (push_direction_change data) [])"

text \<open>\<open>xs.length > 0 ? xs[xs.length - 1] : null\<close>\<close>

definition last_or_null :: "'a list \<Rightarrow> 'a option" where
  "last_or_null xs = (if length xs > 0 then Some (xs ! (length xs - 1)) else None)"

definition getLastDirectionChangePoint :: "StockData list \<Rightarrow> error + DirectionChangePoint option" where
  "getLastDirectionChangePoint data =
     bind_err (getDirectionChangePoints data) (\<lambda>directionChanges.
       Inr (last_or_null directionChanges))"


section \<open>Strategy evaluators\<close>

text \<open>\<open>data[i].price\<close>\<close>

definition price_at :: "StockData list \<Rightarrow> int \<Rightarrow> error + real" where
  "price_at data i = bind_err (elem_at data i) (\<lambda>d. Inr (price d))"

definition shouldBuyDirectionChangeReference ::
  "StockData list \<Rightarrow> real \<Rightarrow> error + (bool \<times> DirectionChangePoint option)"
where
  "shouldBuyDirectionChangeReference data currentPrice =
     bind_err (getLastDirectionChangePoint data) (\<lambda>lastDirectionChange.
       case lastDirectionChange of
         None \<Rightarrow> Inr (False, None)
       | Some p \<Rightarrow> Inr (currentPrice > dcp_price p, Some p))"

definition shouldSellDirectionChangeReference :: "TradingBot \<Rightarrow> real \<Rightarrow> bool \<times> piece list" where
  "shouldSellDirectionChangeReference tbot currentPrice =
     (case currentPosition tbot of
        None \<Rightarrow> (False, [Txt ''No current position''])
      | Some pos \<Rightarrow>
          let threshold = num_or (dollarDropThreshold (settings tbot)) 5;
              priceDrop = buyPrice pos - currentPrice;
              shouldSell = (priceDrop \<ge> threshold)
          in (shouldSell,
              if shouldSell then
                [Txt ''Price dropped '', ToFixed 2 (Fin priceDrop), Txt '' from buy price '',
                 ToFixed 2 (Fin (buyPrice pos))]
              else
                [Txt ''Price drop '', ToFixed 2 (Fin priceDrop), Txt '' below threshold '',
                 NumStr threshold]))"

definition shouldBuyDirectionChangeBuy ::
  "StockData list \<Rightarrow> int option \<Rightarrow> error + (bool \<times> DirectionChangePoint option)"
where
  "shouldBuyDirectionChangeBuy data lastProcessedIndex =
     (if length data < 3 then Inr (False, None)
      else bind_err (getDirectionChangePoints data) (\<lambda>directionChanges.
        if length directionChanges = 0 then Inr (False, None)
        else bind_err (elem_at directionChanges (int (length directionChanges) - 1)) (\<lambda>lastChange.
          let isNewValley =
                (dcp_type lastChange = valley \<and>
                 (case lastProcessedIndex of None \<Rightarrow> True | Some k \<Rightarrow> dcp_index lastChange > k))
          in Inr (isNewValley, if isNewValley then Some lastChange else None))))"

definition shouldBuyTrendReversal :: "StockData list \<Rightarrow> error + bool" where
  "shouldBuyTrendReversal data =
     (if length data < 3 then Inr False
      else bind_err (getDirectionChangePoints data) (\<lambda>directionChanges.
        if length directionChanges = 0 then Inr False
        else bind_err (elem_at directionChanges (int (length directionChanges) - 1)) (\<lambda>lastChange.
          Inr (dcp_type lastChange = valley))))"

definition shouldSellTrendReversal :: "StockData list \<Rightarrow> error + bool" where
  "shouldSellTrendReversal data =
     (if length data < 3 then Inr False
      else bind_err (getDirectionChangePoints data) (\<lambda>directionChanges.
        if length directionChanges = 0 then Inr False
        else bind_err (elem_at directionChanges (int (length directionChanges) - 1)) (\<lambda>lastChange.
          Inr (dcp_type lastChange = peak))))"

definition shouldBuyPriceComparison :: "StockData list \<Rightarrow> error + bool" where
  "shouldBuyPriceComparison data =
     (if length data < 2 then Inr False
      else bind_err (price_at data (int (length data) - 1)) (\<lambda>currentPrice.
           bind_err (price_at data (int (length data) - 2)) (\<lambda>previousPrice.
             Inr (currentPrice > previousPrice))))"

definition shouldSellPriceComparison :: "StockData list \<Rightarrow> error + bool" where
  "shouldSellPriceComparison data =
     (if length data < 2 then Inr False
      else bind_err (price_at data (int (length data) - 1)) (\<lambda>currentPrice.
           bind_err (price_at data (int (length data) - 2)) (\<lambda>previousPrice.
             Inr (currentPrice < previousPrice))))"

definition shouldBuySlopeAnalysis :: "StockData list \<Rightarrow> error + bool" where
  "shouldBuySlopeAnalysis data =
     (if length data < 2 then Inr False
      else bind_err (price_at data (int (length data) - 1)) (\<lambda>currentPrice.
           bind_err (price_at data (int (length data) - 2)) (\<lambda>previousPrice.
             Inr (currentPrice > previousPrice))))"

definition shouldSellSlopeAnalysis :: "StockData list \<Rightarrow> error + bool" where
  "shouldSellSlopeAnalysis data =
     (if length data < 2 then Inr False
      else bind_err (price_at data (int (length data) - 1)) (\<lambda>currentPrice.
           bind_err (price_at data (int (length data) - 2)) (\<lambda>previousPrice.
             Inr (currentPrice < previousPrice))))"

definition isLastIntervalDownward :: "StockData list \<Rightarrow> error + bool" where
  "isLastIntervalDownward data =
     (if length data < 2 then Inr False
      else bind_err (price_at data (int (length data) - 1)) (\<lambda>currentPrice.
           bind_err (price_at data (int (length data) - 2)) (\<lambda>previousPrice.
             Inr (currentPrice < previousPrice))))"

text \<open>
  \<open>simulatePriceCheckAfterDelay\<close> calls \<open>Math.random()\<close>. The value that call returns,
  a number \<open>0 \<le> random < 1\<close> outside the caller's control, is the first argument here.
\<close>

definition simulatePriceCheckAfterDelay ::
  "real \<Rightarrow> StockData list \<Rightarrow> real \<Rightarrow> real \<Rightarrow> real \<times> bool"
where
  "simulatePriceCheckAfterDelay random data delaySeconds currentPrice =
     (let randomChange = (random - 0.5) * 0.01;
          simulatedPrice = currentPrice * (1 + randomChange);
          isUpward = (simulatedPrice > currentPrice)
      in (simulatedPrice, isUpward))"

text \<open>
  The two draws of \<open>Math.random()\<close> that one call of \<open>shouldBuyConfirmedRecovery\<close>
  may consume, in order.
\<close>

type_synonym draws = "real \<times> real"

definition shouldBuyConfirmedRecovery ::
  "draws \<Rightarrow> StockData list \<Rightarrow> real \<Rightarrow> real \<Rightarrow> real \<Rightarrow> error + (bool \<times> piece list)"
where
  "shouldBuyConfirmedRecovery rnd data currentPrice firstDelaySeconds secondDelaySeconds =
     bind_err (isLastIntervalDownward data) (\<lambda>downward.
       if \<not> downward then Inr (False, [Txt ''Last interval is not in downward direction''])
       else
         let firstCheck = simulatePriceCheckAfterDelay (fst rnd) data firstDelaySeconds currentPrice
         in if snd firstCheck then
              Inr (False, [Txt ''After '', NumStr firstDelaySeconds,
                           Txt ''s delay, price went up instead of continuing down''])
            else
              let secondCheck =
                    simulatePriceCheckAfterDelay (snd rnd) data secondDelaySeconds (fst firstCheck)
              in if \<not> snd secondCheck then
                   Inr (False, [Txt ''After '', NumStr secondDelaySeconds,
                                Txt ''s delay, price is still not showing upward movement''])
                 else
                   Inr (True, [Txt ''Confirmed recovery: downtrend confirmed after '',
                               NumStr firstDelaySeconds,
                               Txt ''s, upward movement confirmed after '',
                               NumStr secondDelaySeconds, Txt ''s'']))"

section \<open>Protective overlay\<close>

text \<open>The loop counting the trailing streak of falls, from index \<open>i\<close> down to 1.\<close>

function count_falls :: "real list \<Rightarrow> int \<Rightarrow> int \<Rightarrow> int" where
  "count_falls recentPriceHistory i falls =
     (if i > 0 then
        (if js_lt (num_at recentPriceHistory i) (num_at recentPriceHistory (i - 1))
         then count_falls recentPriceHistory (i - 1) (falls + 1)
         else falls)
      else falls)"
  by pat_completeness auto
termination
  by (relation "measure (\<lambda>(h, i, c). nat i)") auto

declare count_falls.simps [simp del]

text \<open>
  The profit-taking rule of \<open>shouldSellWithDollarDrop\<close>: \<open>Some\<close> of the result it returns
  with, or None when control passes on to the next rule.
\<close>

definition profit_taking_rule ::
  "BotSettings \<Rightarrow> real \<Rightarrow> jsnum \<Rightarrow> real \<Rightarrow> StockData list \<Rightarrow> error + DollarDropResult option"
where
  "profit_taking_rule st profitLoss profitLossPercentage currentPrice data =
     (if truthy (profitTakingEnabled st) then
        let profitPercentageThreshold = num_or (profitTakingPercentage st) 10;
            profitDollarThreshold = num_or (profitTakingDollarAmount st) 0;
            dollarDropTrigger = num_or (dollarDropTriggerAmount st) 0.10;
            reachedProfitThreshold =
              (js_ge profitLossPercentage profitPercentageThreshold \<or>
               (profitDollarThreshold > 0 \<and> profitLoss \<ge> profitDollarThreshold))
        in if reachedProfitThreshold \<and> length data \<ge> 2 then
             bind_err (price_at data (int (length data) - 2)) (\<lambda>previousPrice.
               let priceDropFromPrevious = previousPrice - currentPrice
               in if priceDropFromPrevious \<ge> dollarDropTrigger then
                    Inr (Some \<lparr>dd_shouldSell = True,
                               dd_reason = [Txt ''Profit target reached ('',
                                            ToFixed 1 profitLossPercentage,
                                            Txt ''%) and price dropped '',
                                            ToFixed 2 (Fin priceDropFromPrevious)],
                               dd_updatePosition = None\<rparr>)
                  else Inr None)
           else Inr None
      else Inr None)"

definition shouldSellWithDollarDrop ::
  "TradingBot \<Rightarrow> real \<Rightarrow> StockData list \<Rightarrow> error + DollarDropResult"
where
  "shouldSellWithDollarDrop tbot currentPrice data =
     (case currentPosition tbot of
        None \<Rightarrow>
          Inr \<lparr>dd_shouldSell = False, dd_reason = [Txt ''No current position''],
               dd_updatePosition = None\<rparr>
      | Some pos \<Rightarrow>
          let st = settings tbot;
              currentValue = currentPrice * shares pos;
              investedAmount = buyPrice pos * shares pos;
              profitLoss = currentValue - investedAmount;
              profitLossPercentage = js_times (js_div profitLoss investedAmount) 100
          in bind_err (profit_taking_rule st profitLoss profitLossPercentage currentPrice data)
               (\<lambda>fired.
                  case fired of
                    Some result \<Rightarrow> Inr result
                  | None \<Rightarrow>
                      if truthy (sellAtBuyPriceEnabled st) \<and> currentPrice \<le> buyPrice pos then
                        Inr \<lparr>dd_shouldSell = True,
                             dd_reason = [Txt ''Price fell to/below buy price: '',
                                          ToFixed 2 (Fin currentPrice), Txt '' <= '',
                                          ToFixed 2 (Fin (buyPrice pos))],
                             dd_updatePosition = None\<rparr>
                      else if truthy (consecutiveFallsEnabled st) then
                        let fallsThreshold = num_or (consecutiveFallsCount st) 3;
                            history = (case priceHistory pos of
                                         None \<Rightarrow> [buyPrice pos] | Some h \<Rightarrow> h);
                            updatedPriceHistory = history @ [currentPrice];
                            recentPriceHistory = js_slice_from updatedPriceHistory (- 20);
                            falls = count_falls recentPriceHistory
                                      (int (length recentPriceHistory) - 1) 0
                        in if real_of_int falls \<ge> fallsThreshold then
                             Inr \<lparr>dd_shouldSell = True,
                                  dd_reason = [Txt ''Price fell for '', NumStr (real_of_int falls),
                                               Txt '' consecutive live updates''],
                                  dd_updatePosition =
                                    Some \<lparr>upd_priceHistory = [currentPrice],
                                          upd_consecutiveFalls = 0\<rparr>\<rparr>
                           else
                             Inr \<lparr>dd_shouldSell = False,
                                  dd_reason = [Txt ''Consecutive live falls: '',
                                               NumStr (real_of_int falls), Txt ''/'',
                                               NumStr fallsThreshold],
                                  dd_updatePosition =
                                    Some \<lparr>upd_priceHistory = recentPriceHistory,
                                          upd_consecutiveFalls = falls\<rparr>\<rparr>
                      else
                        Inr \<lparr>dd_shouldSell = False,
                             dd_reason = [Txt ''Dollar Drop conditions not met''],
                             dd_updatePosition = None\<rparr>))"

section \<open>Decision dispatcher\<close>

text \<open>The object literal \<open>{ action, reason }\<close>, its optional keys absent.\<close>

definition decision_of :: "action \<Rightarrow> piece list \<Rightarrow> Decision" where
  "decision_of a r =
     \<lparr>action = a, reason = r, referencePoint = None, newDirectionChange = None,
      updatePosition = None\<rparr>"

text \<open>The arrow between the two prices of a slope reason: U+2192 in UTF-8, with its blanks.\<close>

definition arrow :: string where
  "arrow = [CHR '' '', CHR 0xE2, CHR 0x86, CHR 0x92, CHR '' '']"

text \<open>
  The second half of \<open>makeTradingDecision\<close>, from the line that reads
  \<open>settings.tradingMethod\<close> to the end: the dispatch on the trading method.
\<close>

definition dispatch_strategy ::
  "draws \<Rightarrow> TradingBot \<Rightarrow> StockData list \<Rightarrow> real \<Rightarrow> int option \<Rightarrow> error + Decision"
where
  "dispatch_strategy rnd tbot data currentPrice lastProcessedIndex =
     (let method = str_or (tradingMethod (settings tbot)) ''trend_reversal'';
          n = int (length data)
      in
      if method = ''price_comparison'' then
        (if currentPosition tbot = None then
           bind_err (shouldBuyPriceComparison data) (\<lambda>shouldBuy.
             if shouldBuy \<and> length data \<ge> 2 then
               bind_err (price_at data (n - 1)) (\<lambda>cur.
               bind_err (price_at data (n - 2)) (\<lambda>prev.
                 Inr (decision_of BUY
                   [Txt ''Current price '', ToFixed 2 (Fin cur), Txt '' > previous price '',
                    ToFixed 2 (Fin prev)])))
             else if length data \<ge> 2 then
               bind_err (price_at data (n - 1)) (\<lambda>cur.
               bind_err (price_at data (n - 2)) (\<lambda>prev.
                 Inr (decision_of HOLD
                   [Txt ''Current price '', ToFixed 2 (Fin cur), Txt '' <= previous price '',
                    ToFixed 2 (Fin prev)])))
             else Inr (decision_of HOLD [Txt ''Insufficient data for price comparison'']))
         else
           bind_err (shouldSellPriceComparison data) (\<lambda>shouldSell.
             if shouldSell \<and> length data \<ge> 2 then
               bind_err (price_at data (n - 1)) (\<lambda>cur.
               bind_err (price_at data (n - 2)) (\<lambda>prev.
                 Inr (decision_of SELL
                   [Txt ''Current price '', ToFixed 2 (Fin cur), Txt '' < previous price '',
                    ToFixed 2 (Fin prev)])))
             else if length data \<ge> 2 then
               bind_err (price_at data (n - 1)) (\<lambda>cur.
               bind_err (price_at data (n - 2)) (\<lambda>prev.
                 Inr (decision_of HOLD
                   [Txt ''Current price '', ToFixed 2 (Fin cur), Txt '' >= previous price '',
                    ToFixed 2 (Fin prev)])))
             else Inr (decision_of HOLD [Txt ''Insufficient data for price comparison''])))
      else if method = ''slope_analysis'' then
        (if currentPosition tbot = None then
           bind_err (shouldBuySlopeAnalysis data) (\<lambda>shouldBuy.
             if shouldBuy \<and> length data \<ge> 2 then
               bind_err (price_at data (n - 1)) (\<lambda>cur.
               bind_err (price_at data (n - 2)) (\<lambda>prev.
                 let slope = cur - prev
                 in Inr (decision_of BUY
                      [Txt ''Positive slope: '', Txt (if slope > 0 then ''+'' else []),
                       ToFixed 2 (Fin slope), Txt '' ('', ToFixed 2 (Fin prev), Txt arrow,
                       ToFixed 2 (Fin cur), Txt '')''])))
             else if length data \<ge> 2 then
               bind_err (price_at data (n - 1)) (\<lambda>cur.
               bind_err (price_at data (n - 2)) (\<lambda>prev.
                 Inr (decision_of HOLD
                   [Txt ''Negative/flat slope: '', ToFixed 2 (Fin (cur - prev))])))
             else Inr (decision_of HOLD [Txt ''Insufficient data for slope analysis'']))
         else
           bind_err (shouldSellSlopeAnalysis data) (\<lambda>shouldSell.
             if shouldSell \<and> length data \<ge> 2 then
               bind_err (price_at data (n - 1)) (\<lambda>cur.
               bind_err (price_at data (n - 2)) (\<lambda>prev.
                 let slope = cur - prev
                 in Inr (decision_of SELL
                      [Txt ''Negative slope: '', ToFixed 2 (Fin slope), Txt '' ('',
                       ToFixed 2 (Fin prev), Txt arrow, ToFixed 2 (Fin cur), Txt '')''])))
             else if length data \<ge> 2 then
               bind_err (price_at data (n - 1)) (\<lambda>cur.
               bind_err (price_at data (n - 2)) (\<lambda>prev.
                 Inr (decision_of HOLD
                   [Txt ''Positive/flat slope: '', ToFixed 2 (Fin (cur - prev))])))
             else Inr (decision_of HOLD [Txt ''Insufficient data for slope analysis''])))
      else if method = ''direction_change_reference'' then
        (if currentPosition tbot = None then
           bind_err (shouldBuyDirectionChangeReference data currentPrice) (\<lambda>(shouldBuy, refPoint).
             case refPoint of
               Some p \<Rightarrow>
                 if shouldBuy then
                   Inr ((decision_of BUY
                     [Txt ''Current price '', ToFixed 2 (Fin currentPrice),
                      Txt '' > last direction change '', ToFixed 2 (Fin (dcp_price p))])
                     \<lparr>referencePoint := Some refPoint\<rparr>)
                 else
                   Inr ((decision_of HOLD
                     [Txt ''Current price '', ToFixed 2 (Fin currentPrice),
                      Txt '' <= last direction change '', ToFixed 2 (Fin (dcp_price p))])
                     \<lparr>referencePoint := Some refPoint\<rparr>)
             | None \<Rightarrow>
                 Inr ((decision_of HOLD [Txt ''No direction change reference point found''])
                   \<lparr>referencePoint := Some refPoint\<rparr>))
         else
           (let (shouldSell, why) = shouldSellDirectionChangeReference tbot currentPrice
            in Inr (decision_of (if shouldSell then SELL else HOLD) why)))
      else if method = ''direction_change_buy'' then
        (if currentPosition tbot = None then
           bind_err (shouldBuyDirectionChangeBuy data lastProcessedIndex) (\<lambda>(shouldBuy, newChange).
             case newChange of
               Some p \<Rightarrow>
                 if shouldBuy then
                   Inr ((decision_of BUY
                     [Txt ''Direction changed from DOWN to UP at '', ToFixed 2 (Fin (dcp_price p))])
                     \<lparr>newDirectionChange := Some newChange\<rparr>)
                 else Inr (decision_of HOLD [Txt ''Waiting for new direction change from DOWN to UP''])
             | None \<Rightarrow>
                 Inr (decision_of HOLD [Txt ''Waiting for new direction change from DOWN to UP'']))
         else
           bind_err (shouldSellTrendReversal data) (\<lambda>shouldSell.
             Inr (decision_of (if shouldSell then SELL else HOLD)
               (if shouldSell then [Txt ''Trend changed from UP to DOWN'']
                else [Txt ''Holding position, trend still up'']))))
      else if method = ''confirmed_recovery'' then
        (if currentPosition tbot = None then
           (let firstDelay = num_or (confirmedRecoveryFirstDelay (settings tbot)) 15;
                secondDelay = num_or (confirmedRecoverySecondDelay (settings tbot)) 30
            in bind_err (shouldBuyConfirmedRecovery rnd data currentPrice firstDelay secondDelay)
                 (\<lambda>(shouldBuy, why).
                    Inr (decision_of (if shouldBuy then BUY else HOLD) why)))
         else
           bind_err (shouldSellTrendReversal data) (\<lambda>shouldSell.
             Inr (decision_of (if shouldSell then SELL else HOLD)
               (if shouldSell then [Txt ''Trend changed from UP to DOWN'']
                else [Txt ''Holding position, trend still up'']))))
      else
        (if currentPosition tbot = None then
           bind_err (shouldBuyTrendReversal data) (\<lambda>shouldBuy.
             Inr (decision_of (if shouldBuy then BUY else HOLD)
               (if shouldBuy then [Txt ''Trend changed from DOWN to UP'']
                else [Txt ''Waiting for upward trend reversal''])))
         else
           bind_err (shouldSellTrendReversal data) (\<lambda>shouldSell.
             Inr (decision_of (if shouldSell then SELL else HOLD)
               (if shouldSell then [Txt ''Trend changed from UP to DOWN'']
                else [Txt ''Holding position, trend still up''])))))"

definition makeTradingDecision ::
  "draws \<Rightarrow> TradingBot \<Rightarrow> StockData list \<Rightarrow> real \<Rightarrow> int option \<Rightarrow> error + Decision"
where
  "makeTradingDecision rnd tbot data currentPrice lastProcessedIndex =
     (if \<not> isActive tbot then Inr (decision_of HOLD [Txt ''Bot is inactive''])
      else if truthy (dollarDropEnabled (settings tbot)) \<and> currentPosition tbot \<noteq> None then
        bind_err (shouldSellWithDollarDrop tbot currentPrice data) (\<lambda>dollarDropResult.
          if dd_shouldSell dollarDropResult then
            Inr ((decision_of SELL (dd_reason dollarDropResult))
                   \<lparr>updatePosition := dd_updatePosition dollarDropResult\<rparr>)
          else if dd_updatePosition dollarDropResult \<noteq> None then
            Inr ((decision_of HOLD (dd_reason dollarDropResult))
                   \<lparr>updatePosition := dd_updatePosition dollarDropResult\<rparr>)
          else dispatch_strategy rnd tbot data currentPrice lastProcessedIndex)
      else dispatch_strategy rnd tbot data currentPrice lastProcessedIndex)"

section \<open>Beat sequences\<close>

record BeatSequence =
  beat_id :: "piece list"
  startIndex :: int
  endIndex :: int
  startTime :: int
  endTime :: int
  startPrice :: real
  endPrice :: real
  dollarGain :: jsnum
  percentageChange :: jsnum
  dataPoints :: "StockData list"

text \<open>
  The sequence that \<open>detectBeatSequences\<close> pushes, from \<open>currentSequenceStart\<close> and
  \<open>endIndex\<close>; the source builds it with the same text inside and after its loop.
\<close>

definition make_beat :: "StockData list \<Rightarrow> int \<Rightarrow> int \<Rightarrow> error + BeatSequence" where
  "make_beat data currentSequenceStart endIdx =
     bind_err (elem_at data currentSequenceStart) (\<lambda>startData.
     bind_err (elem_at data endIdx) (\<lambda>endData.
       let gain = f64_sub (price endData) (price startData);
           percentage = f64_mul (f64_div gain (price startData)) 100
       in Inr \<lparr>beat_id = [Txt ''beat-'', NumStr (real_of_int currentSequenceStart), Txt ''-'',
                            NumStr (real_of_int endIdx)],
               startIndex = currentSequenceStart,
               endIndex = endIdx,
               startTime = timestamp startData,
               endTime = timestamp endData,
               startPrice = price startData,
               endPrice = price endData,
               dollarGain = parse_fixed2 gain,
               percentageChange = parse_fixed2 percentage,
               dataPoints = js_slice data currentSequenceStart (endIdx + 1)\<rparr>))"

text \<open>
  One turn of the loop, on the state \<open>(sequences, currentSequenceStart,
  consecutivePositiveCount)\<close>.
\<close>

definition beat_step ::
  "StockData list \<Rightarrow> int \<Rightarrow> int \<Rightarrow> BeatSequence list \<times> int \<times> int \<Rightarrow>
   error + (BeatSequence list \<times> int \<times> int)"
where
  "beat_step data minConsecutiveIntervals i st =
     (case st of (sequences, currentSequenceStart, consecutivePositiveCount) \<Rightarrow>
        bind_err (price_at data i) (\<lambda>currentPrice.
        bind_err (price_at data (i - 1)) (\<lambda>previousPrice.
          let slope = currentPrice - previousPrice
          in if slope > 0 then
               Inr (sequences,
                    (if consecutivePositiveCount = 0 then i - 1 else currentSequenceStart),
                    consecutivePositiveCount + 1)
             else if consecutivePositiveCount \<ge> minConsecutiveIntervals \<and> currentSequenceStart \<ge> 0
             then
               bind_err (make_beat data currentSequenceStart (i - 1)) (\<lambda>b.
                 Inr (sequences @ [b], - 1, 0))
             else Inr (sequences, - 1, 0))))"

definition detectBeatSequences :: "StockData list \<Rightarrow> int \<Rightarrow> error + BeatSequence list" where
  "detectBeatSequences data minConsecutiveIntervals =
     (if int (length data) < minConsecutiveIntervals + 1 then Inr []
      else
        bind_err
          (for_each (index_range 1 (int (length data))) (beat_step data minConsecutiveIntervals)
             ([], - 1, 0))
          (\<lambda>(sequences, currentSequenceStart, consecutivePositiveCount).
             if consecutivePositiveCount \<ge> minConsecutiveIntervals \<and> currentSequenceStart \<ge> 0
             then
               bind_err (make_beat data currentSequenceStart (int (length data) - 1)) (\<lambda>b.
                 Inr (sequences @ [b]))
             else Inr sequences))"

section \<open>Potential-profit sequences\<close>

record PotentialProfitSequence =
  pp_id :: "piece list"
  originalSequence :: BeatSequence
  pp_startIndex :: int
  pp_endIndex :: int
  pp_startTime :: int
  pp_endTime :: int
  pp_startPrice :: real
  pp_endPrice :: real
  pp_dollarGain :: jsnum
  pp_percentageChange :: jsnum
  pp_dataPoints :: "StockData list"
  excludedBeats :: int

text \<open>The callback of \<open>beatSequences.forEach\<close>.\<close>

definition trim_sequence ::
  "BeatSequence \<Rightarrow> PotentialProfitSequence list \<Rightarrow> error + PotentialProfitSequence list"
where
  "trim_sequence sq potentialProfitSequences =
     (if length (dataPoints sq) < 3 then Inr potentialProfitSequences
      else
        let trimmedDataPoints = js_slice (dataPoints sq) 1 (- 1)
        in if length trimmedDataPoints = 0 then Inr potentialProfitSequences
           else
             bind_err (elem_at trimmedDataPoints 0) (\<lambda>startData.
             bind_err (elem_at trimmedDataPoints (int (length trimmedDataPoints) - 1)) (\<lambda>endData.
               let gain = f64_sub (price endData) (price startData);
                   percentage = f64_mul (f64_div gain (price startData)) 100
               in Inr (potentialProfitSequences @
                    [\<lparr>pp_id = Txt ''potential-'' # beat_id sq,
                      originalSequence = sq,
                      pp_startIndex = startIndex sq + 1,
                      pp_endIndex = endIndex sq - 1,
                      pp_startTime = timestamp startData,
                      pp_endTime = timestamp endData,
                      pp_startPrice = price startData,
                      pp_endPrice = price endData,
                      pp_dollarGain = parse_fixed2 gain,
                      pp_percentageChange = parse_fixed2 percentage,
                      pp_dataPoints = trimmedDataPoints,
                      excludedBeats = 2\<rparr>]))))"

definition calculatePotentialProfitSequences ::
  "BeatSequence list \<Rightarrow> error + PotentialProfitSequence list"
where
  "calculatePotentialProfitSequences beatSequences = for_each beatSequences trim_sequence []"

section \<open>Potential-loss sequences\<close>

record PotentialLossSequence =
  pl_id :: "piece list"
  beforeReversalIndex :: int
  reversalIndex :: int
  afterReversalIndex :: int
  beforeReversalTime :: int
  reversalTime :: int
  afterReversalTime :: int
  beforeReversalPrice :: real
  reversalPrice :: real
  afterReversalPrice :: real
  dollarLoss :: jsnum
  pl_percentageChange :: jsnum
  pl_dataPoints :: "StockData list"
  upIndex :: int
  downIndex :: int
  upTime :: int
  downTime :: int
  upPrice :: real
  downPrice :: real

text \<open>The body of the loop of \<open>detectPotentialLossSequences\<close>, at index \<open>i\<close>.\<close>

definition loss_step ::
  "StockData list \<Rightarrow> int \<Rightarrow> PotentialLossSequence list \<Rightarrow> error + PotentialLossSequence list"
where
  "loss_step data i lossSequences =
     bind_err (elem_at data (i - 2)) (\<lambda>d0.
     bind_err (elem_at data (i - 1)) (\<lambda>d1.
     bind_err (elem_at data i) (\<lambda>d2.
     bind_err (elem_at data (i + 1)) (\<lambda>d3.
       let beforeBeforePrice = price d0; beforePrice = price d1;
           currentPrice = price d2; nextPrice = price d3;
           isDownBeforeReversal = (beforePrice < beforeBeforePrice);
           isUpwardReversal = (currentPrice > beforePrice);
           isDownAfterReversal = (nextPrice < currentPrice)
       in if isDownBeforeReversal \<and> isUpwardReversal \<and> isDownAfterReversal then
            let loss = f64_sub currentPrice nextPrice;
                percentage = f64_mul (f64_div loss currentPrice) 100
            in Inr (lossSequences @
                 [\<lparr>pl_id = [Txt ''loss-'', NumStr (real_of_int (i - 1)), Txt ''-'',
                            NumStr (real_of_int i), Txt ''-'', NumStr (real_of_int (i + 1))],
                   beforeReversalIndex = i - 1,
                   reversalIndex = i,
                   afterReversalIndex = i + 1,
                   beforeReversalTime = timestamp d1,
                   reversalTime = timestamp d2,
                   afterReversalTime = timestamp d3,
                   beforeReversalPrice = beforePrice,
                   reversalPrice = currentPrice,
                   afterReversalPrice = nextPrice,
                   dollarLoss = parse_fixed2 loss,
                   pl_percentageChange = parse_fixed2 percentage,
                   pl_dataPoints = [d0, d1, d2, d3],
                   upIndex = i,
                   downIndex = i + 1,
                   upTime = timestamp d2,
                   downTime = timestamp d3,
                   upPrice = currentPrice,
                   downPrice = nextPrice\<rparr>])
          else Inr lossSequences))))"

definition detectPotentialLossSequences :: "StockData list \<Rightarrow> error + PotentialLossSequence list" where
  "detectPotentialLossSequences data =
     (if length data < 4 then Inr []
      else for_each (index_range 2 (int (length data) - 1)) (loss_step data) [])"

section \<open>Invariants and sample inputs\<close>

text \<open>The loop invariant of \<open>getDirectionChangePoints\<close> before index \<open>i\<close>.\<close>

definition dcp_inv :: "int \<Rightarrow> DirectionChangePoint list \<Rightarrow> bool" where
  "dcp_inv i acc = (\<forall>p \<in> set acc. 1 \<le> dcp_index p \<and> dcp_index p < i)"

text \<open>
  What holds of a sequence that \<open>detectBeatSequences\<close> emits on \<open>data\<close>, and the
  loop invariant before index \<open>i\<close>: a run of \<open>cnt\<close> rising intervals ends at
  \<open>i - 1\<close> and began at \<open>start\<close>.
\<close>

definition beat_ok :: "StockData list \<Rightarrow> BeatSequence \<Rightarrow> bool" where
  "beat_ok data b =
     (0 \<le> startIndex b \<and> startIndex b < endIndex b \<and> endIndex b < int (length data) \<and>
      startPrice b = price (data ! nat (startIndex b)) \<and>
      endPrice b = price (data ! nat (endIndex b)) \<and>
      (\<forall>j. startIndex b \<le> j \<and> j < endIndex b \<longrightarrow>
         price (data ! nat j) < price (data ! nat (j + 1))) \<and>
      (endIndex b + 1 < int (length data) \<longrightarrow>
         price (data ! nat (endIndex b + 1)) \<le> price (data ! nat (endIndex b))) \<and>
      percentageChange b =
        parse_fixed2 (f64_mul (f64_div (f64_sub (endPrice b) (startPrice b)) (startPrice b)) 100))"

definition beat_inv :: "StockData list \<Rightarrow> int \<Rightarrow> BeatSequence list \<times> int \<times> int \<Rightarrow> bool" where
  "beat_inv data i st =
     (case st of (sequences, start, cnt) \<Rightarrow>
        (\<forall>b \<in> set sequences. beat_ok data b) \<and> 0 \<le> cnt \<and>
        (cnt = 0 \<longrightarrow> start = - 1) \<and>
        (0 < cnt \<longrightarrow> start = i - 1 - cnt \<and> 0 \<le> start \<and>
           (\<forall>j. start \<le> j \<and> j < i - 1 \<longrightarrow> price (data ! nat j) < price (data ! nat (j + 1)))))"

text \<open>
  The percentage stored in a potential-profit sequence, computed in binary64 from its own
  two prices.
\<close>

definition pp_ok :: "PotentialProfitSequence \<Rightarrow> bool" where
  "pp_ok p =
     (pp_percentageChange p =
        parse_fixed2
          (f64_mul (f64_div (f64_sub (pp_endPrice p) (pp_startPrice p)) (pp_startPrice p)) 100))"

text \<open>
  The percentage as the specification words it, \<open>(gain / startPrice) * 100\<close> rounded to
  2 decimals with \<open>gain = endPrice - startPrice\<close>, in exact arithmetic; and the prices
  for which the stored percentage is compared with it.
\<close>

definition spec_percentage :: "real \<Rightarrow> real \<Rightarrow> real" where
  "spec_percentage startP endP = round2 ((endP - startP) / startP * 100)"

definition quoted_price :: "real \<Rightarrow> bool" where
  "quoted_price p = (1 / 100 \<le> p \<and> p \<le> 10 ^ 6)"

text \<open>
  The overlay intercepts a call when it runs (active bot, overlay enabled, open position)
  and ends the call itself, with SELL or with a position update.
\<close>

definition overlay_intercepts :: "TradingBot \<Rightarrow> StockData list \<Rightarrow> real \<Rightarrow> bool" where
  "overlay_intercepts tbot data cp =
     (isActive tbot \<and> truthy (dollarDropEnabled (settings tbot)) \<and> currentPosition tbot \<noteq> None \<and>
      (case shouldSellWithDollarDrop tbot cp data of
         Inl e \<Rightarrow> True
       | Inr r \<Rightarrow> dd_shouldSell r \<or> dd_updatePosition r \<noteq> None))"

text \<open>
  Sample inputs: a sample with a time and a price, the series of scenario A with its one
  rising run, a rising series whose exact percentage is a rounding tie, a two-sample fall,
  a three-sample peak.
\<close>

definition sample :: "int \<Rightarrow> real \<Rightarrow> StockData" where
  "sample t p =
     \<lparr>timestamp = t, price = p, volume = 0, open_price = None, high = None, low = None,
      close_price = None\<rparr>"

definition series_A :: "StockData list" where
  "series_A = [sample 0 10, sample 1 11, sample 2 12, sample 3 13, sample 4 9]"

definition beat_A :: BeatSequence where
  "beat_A =
     \<lparr>beat_id = [Txt ''beat-'', NumStr 0, Txt ''-'', NumStr 3],
      startIndex = 0, endIndex = 3, startTime = 0, endTime = 3, startPrice = 10,
      endPrice = 13, dollarGain = Fin 3, percentageChange = Fin 30,
      dataPoints = [sample 0 10, sample 1 11, sample 2 12, sample 3 13]\<rparr>"

definition tie_series :: "StockData list" where
  "tie_series = [sample 0 160, sample 1 161, sample 2 162, sample 3 163, sample 4 183]"

definition falling_pair :: "StockData list" where
  "falling_pair = [sample 0 10, sample 1 9]"

definition peak_series :: "StockData list" where
  "peak_series = [sample 0 1, sample 1 2, sample 2 1]"

text \<open>
  Settings that name a trading method and leave every option unset, a position of one
  share, and the bots of the examples.
\<close>

definition settings_for :: "string \<Rightarrow> BotSettings" where
  "settings_for m =
     \<lparr>tradingMethod = Some m, dollarDropThreshold = None, dollarDropEnabled = None,
      profitTakingEnabled = None, profitTakingPercentage = None,
      profitTakingDollarAmount = None, dollarDropTriggerAmount = None,
      sellAtBuyPriceEnabled = None, consecutiveFallsEnabled = None,
      consecutiveFallsCount = None, confirmedRecoveryFirstDelay = None,
      confirmedRecoverySecondDelay = None\<rparr>"

definition position_at :: "real \<Rightarrow> Position" where
  "position_at p =
     \<lparr>buyPrice = p, shares = 1, pos_timestamp = 0, consecutiveFalls = None, lastPrice = None,
      priceHistory = None\<rparr>"

definition recovery_bot :: TradingBot where
  "recovery_bot =
     \<lparr>isActive = True, settings = settings_for ''confirmed_recovery'', currentPosition = None\<rparr>"

definition comparison_bot :: TradingBot where
  "comparison_bot =
     \<lparr>isActive = True, settings = settings_for ''price_comparison'', currentPosition = None\<rparr>"

definition tracking_bot :: TradingBot where
  "tracking_bot =
     \<lparr>isActive = True,
      settings = (settings_for ''trend_reversal'')
        \<lparr>dollarDropEnabled := Some True, consecutiveFallsEnabled := Some True\<rparr>,
      currentPosition = Some (position_at 10)\<rparr>"

definition idle_overlay_bot :: TradingBot where
  "idle_overlay_bot =
     \<lparr>isActive = True,
      settings = (settings_for ''trend_reversal'')\<lparr>dollarDropEnabled := Some True\<rparr>,
      currentPosition = Some (position_at 10)\<rparr>"

definition guarded_bot :: "string \<Rightarrow> TradingBot" where
  "guarded_bot m =
     \<lparr>isActive = True,
      settings = (settings_for m)
        \<lparr>dollarDropEnabled := Some True, sellAtBuyPriceEnabled := Some True\<rparr>,
      currentPosition = Some (position_at 20)\<rparr>"

section \<open>Errors and loops\<close>

lemma bind_err_Inr [simp]: "bind_err (Inr x) f = f x"
  by (simp add: bind_err_def)

lemma bind_err_Inl [simp]: "bind_err (Inl e) f = Inl e"
  by (simp add: bind_err_def)

lemma bind_err_eq_Inr: "bind_err m f = Inr y \<longleftrightarrow> (\<exists>x. m = Inr x \<and> f x = Inr y)"
  by (cases m) simp_all

lemma elem_at_in_range: "0 \<le> i \<Longrightarrow> i < int (length xs) \<Longrightarrow> elem_at xs i = Inr (xs ! nat i)"
  by (simp add: elem_at_def)

lemma price_at_in_range:
  "0 \<le> i \<Longrightarrow> i < int (length xs) \<Longrightarrow> price_at xs i = Inr (price (xs ! nat i))"
  by (simp add: price_at_def elem_at_def)

lemma for_each_range_from:
  assumes step: "\<And>i s. a0 \<le> i \<Longrightarrow> i < b \<Longrightarrow> I i s \<Longrightarrow> \<exists>s'. body i s = Inr s' \<and> I (i + 1) s'"
  shows "a0 \<le> a \<Longrightarrow> a \<le> b \<Longrightarrow> I a s \<Longrightarrow>
    \<exists>s'. for_each (index_range a b) body s = Inr s' \<and> I b s'"
proof (induction "nat (b - a)" arbitrary: a s)
  case 0
  then have "a = b" by simp
  with 0 show ?case by (simp add: index_range_def)
next
  case (Suc k)
  then have lt: "a < b" by linarith
  from step [OF Suc.prems(1) lt Suc.prems(3)] obtain s1
    where s1: "body a s = Inr s1" "I (a + 1) s1"
    by auto
  have "k = nat (b - (a + 1))" using Suc.hyps(2) by linarith
  moreover have "a0 \<le> a + 1" "a + 1 \<le> b" using lt Suc.prems(1) by simp_all
  ultimately obtain s' where "for_each (index_range (a + 1) b) body s1 = Inr s'" "I b s'"
    using Suc.hyps(1) [of "a + 1" s1] s1(2) by blast
  moreover have "index_range a b = a # index_range (a + 1) b"
    using lt by (simp add: index_range_def upto_rec1)
  ultimately show ?case using s1(1) by simp
qed

lemma for_each_range_rule:
  assumes "a \<le> b" and "I a s"
    and "\<And>i s. a \<le> i \<Longrightarrow> i < b \<Longrightarrow> I i s \<Longrightarrow> \<exists>s'. body i s = Inr s' \<and> I (i + 1) s'"
  shows "\<exists>s'. for_each (index_range a b) body s = Inr s' \<and> I b s'"
  using for_each_range_from [of a b I body a s] assms by blast

lemma for_each_list_rule:
  assumes "I s"
    and step: "\<And>x s. x \<in> set xs \<Longrightarrow> I s \<Longrightarrow> \<exists>s'. body x s = Inr s' \<and> I s'"
  shows "\<exists>s'. for_each xs body s = Inr s' \<and> I s'"
  using assms
proof (induction xs arbitrary: s)
  case Nil
  then show ?case by simp
next
  case (Cons x xs)
  from Cons.prems(2) [of x s] Cons.prems(1) obtain s1 where s1: "body x s = Inr s1" "I s1"
    by auto
  from Cons.IH [OF s1(2)] Cons.prems(2) obtain s' where "for_each xs body s1 = Inr s'" "I s'"
    by (meson list.set_intros(2))
  with s1(1) show ?case by simp
qed

section \<open>Direction-change points are interior\<close>

lemma push_direction_change_inv:
  assumes "1 \<le> i" "i < int (length data) - 1" "dcp_inv i acc"
  shows "\<exists>acc'. push_direction_change data i acc = Inr acc' \<and> dcp_inv (i + 1) acc'"
proof -
  have "elem_at data (i - 1) = Inr (data ! nat (i - 1))" "elem_at data i = Inr (data ! nat i)"
    "elem_at data (i + 1) = Inr (data ! nat (i + 1))"
    using assms(1,2) by (simp_all add: elem_at_def)
  moreover have "dcp_inv (i + 1) acc" using assms(3) by (fastforce simp: dcp_inv_def)
  ultimately show ?thesis using assms(1)
    by (auto simp: push_direction_change_def Let_def dcp_inv_def)
qed

lemma getDirectionChangePoints_inv:
  "\<exists>ps. getDirectionChangePoints data = Inr ps \<and> dcp_inv (int (length data) - 1) ps"
proof (cases "length data < 3")
  case True
  then show ?thesis by (simp add: getDirectionChangePoints_def dcp_inv_def)
next
  case False
  then have "(1::int) \<le> int (length data) - 1" by simp
  moreover have "dcp_inv 1 []" by (simp add: dcp_inv_def)
  ultimately have "\<exists>ps. for_each (index_range 1 (int (length data) - 1))
      (push_direction_change data) [] = Inr ps \<and> dcp_inv (int (length data) - 1) ps"
    by (rule for_each_range_rule) (rule push_direction_change_inv)
  with False show ?thesis by (simp add: getDirectionChangePoints_def)
qed

text \<open>
  C9. For every series, every point that \<open>getDirectionChangePoints\<close> returns has an
  index between 1 and \<open>length - 2\<close> inclusive: the first and the last sample are never
  a peak or a valley, and the point that \<open>getLastDirectionChangePoint\<close> returns is never
  the newest sample. Neither function throws.
\<close>

theorem direction_change_index_bounds:
  "\<exists>ps. getDirectionChangePoints data = Inr ps \<and>
     (\<forall>p \<in> set ps. 1 \<le> dcp_index p \<and> dcp_index p \<le> int (length data) - 2) \<and>
     (\<exists>lp. getLastDirectionChangePoint data = Inr lp \<and>
        (\<forall>p. lp = Some p \<longrightarrow>
           1 \<le> dcp_index p \<and> dcp_index p \<le> int (length data) - 2 \<and>
           dcp_index p \<noteq> int (length data) - 1))"
proof -
  from getDirectionChangePoints_inv [of data] obtain ps
    where ps: "getDirectionChangePoints data = Inr ps" "dcp_inv (int (length data) - 1) ps"
    by blast
  have bounds: "\<forall>p \<in> set ps. 1 \<le> dcp_index p \<and> dcp_index p \<le> int (length data) - 2"
    using ps(2) by (fastforce simp: dcp_inv_def)
  have "getLastDirectionChangePoint data = Inr (last_or_null ps)"
    using ps(1) by (simp add: getLastDirectionChangePoint_def)
  moreover have "\<forall>p. last_or_null ps = Some p \<longrightarrow> p \<in> set ps"
    by (auto simp: last_or_null_def split: if_splits)
  ultimately show ?thesis using ps(1) bounds by fastforce
qed

theorem direction_change_index_bounds_witness:
  "getDirectionChangePoints series_A =
     Inr [\<lparr>dcp_index = 3, dcp_timestamp = 3, dcp_price = 13, dcp_type = peak\<rparr>] \<and>
   getLastDirectionChangePoint series_A =
     Inr (Some \<lparr>dcp_index = 3, dcp_timestamp = 3, dcp_price = 13, dcp_type = peak\<rparr>) \<and>
   (3::int) \<le> int (length series_A) - 2"
  using direction_change_index_bounds [of series_A]
  by (simp add: series_A_def sample_def getLastDirectionChangePoint_def
      getDirectionChangePoints_def index_range_def upto_rec1 push_direction_change_def
      elem_at_def last_or_null_def)

section \<open>Short series\<close>

text \<open>The potential-loss detector reads inside the series only.\<close>

lemma loss_step_returns:
  assumes "2 \<le> i" "i < int (length data) - 1"
  shows "\<exists>acc'. loss_step data i acc = Inr acc'"
proof -
  have "elem_at data (i - 2) = Inr (data ! nat (i - 2))"
    "elem_at data (i - 1) = Inr (data ! nat (i - 1))" "elem_at data i = Inr (data ! nat i)"
    "elem_at data (i + 1) = Inr (data ! nat (i + 1))"
    using assms by (simp_all add: elem_at_def)
  then show ?thesis by (simp add: loss_step_def Let_def)
qed

lemma detectPotentialLossSequences_returns:
  "\<exists>ls. detectPotentialLossSequences data = Inr ls"
proof (cases "length data < 4")
  case True
  then show ?thesis by (simp add: detectPotentialLossSequences_def)
next
  case False
  then have "(2::int) \<le> int (length data) - 1" by simp
  then have "\<exists>ls. for_each (index_range 2 (int (length data) - 1)) (loss_step data) [] = Inr ls \<and> True"
    by (rule for_each_range_rule) (simp_all add: loss_step_returns)
  with False show ?thesis by (simp add: detectPotentialLossSequences_def)
qed

text \<open>
  C6. A series of fewer than 3 samples has no direction-change point, one of fewer than 4
  samples no potential-loss sequence, and one of fewer than \<open>minConsecutiveIntervals + 1\<close>
  samples no beat sequence: each detector returns the empty list.
\<close>

theorem short_series_detect_nothing:
  "(length data < 3 \<longrightarrow> getDirectionChangePoints data = Inr []) \<and>
   (length data < 4 \<longrightarrow> detectPotentialLossSequences data = Inr []) \<and>
   (int (length data) < minConsecutiveIntervals + 1 \<longrightarrow>
      detectBeatSequences data minConsecutiveIntervals = Inr [])"
  by (simp add: getDirectionChangePoints_def detectPotentialLossSequences_def
      detectBeatSequences_def)

theorem short_series_detect_nothing_witness:
  "length [sample 0 10, sample 1 11] < 3 \<and>
   getDirectionChangePoints [sample 0 10, sample 1 11] = Inr [] \<and>
   detectPotentialLossSequences [sample 0 10, sample 1 11] = Inr [] \<and>
   detectBeatSequences [sample 0 10, sample 1 11] 4 = Inr []"
  using short_series_detect_nothing [of "[sample 0 10, sample 1 11]" 4]
  by simp

text \<open>
  C4, as the code has it. Below its minimum every strategy evaluator returns its negative
  result and does not throw: below 3 samples the trend-reversal buy and sell rules and the
  two direction-change buy rules; below 2 samples the price-comparison and slope rules and
  the confirmed-recovery buy rule, whose only guard on the series is the two-sample guard
  of \<open>isLastIntervalDownward\<close>.
\<close>

theorem evaluators_below_minimum:
  "(length data < 3 \<longrightarrow>
      shouldBuyTrendReversal data = Inr False \<and>
      shouldSellTrendReversal data = Inr False \<and>
      shouldBuyDirectionChangeReference data cp = Inr (False, None) \<and>
      shouldBuyDirectionChangeBuy data lastProcessedIndex = Inr (False, None)) \<and>
   (length data < 2 \<longrightarrow>
      shouldBuyPriceComparison data = Inr False \<and>
      shouldSellPriceComparison data = Inr False \<and>
      shouldBuySlopeAnalysis data = Inr False \<and>
      shouldSellSlopeAnalysis data = Inr False \<and>
      map_sum id fst (shouldBuyConfirmedRecovery rnd data cp d1 d2) = Inr False)"
  by (simp add: shouldBuyTrendReversal_def shouldSellTrendReversal_def
      shouldBuyDirectionChangeReference_def shouldBuyDirectionChangeBuy_def
      getLastDirectionChangePoint_def getDirectionChangePoints_def last_or_null_def
      shouldBuyPriceComparison_def shouldSellPriceComparison_def shouldBuySlopeAnalysis_def
      shouldSellSlopeAnalysis_def shouldBuyConfirmedRecovery_def isLastIntervalDownward_def)

theorem evaluators_below_minimum_witness:
  "length [sample 0 10] < 2 \<and>
   shouldBuyTrendReversal [sample 0 10] = Inr False \<and>
   shouldSellTrendReversal [sample 0 10] = Inr False \<and>
   shouldBuyDirectionChangeReference [sample 0 10] 11 = Inr (False, None) \<and>
   shouldBuyDirectionChangeBuy [sample 0 10] None = Inr (False, None) \<and>
   shouldBuyPriceComparison [sample 0 10] = Inr False \<and>
   shouldSellPriceComparison [sample 0 10] = Inr False \<and>
   shouldBuySlopeAnalysis [sample 0 10] = Inr False \<and>
   shouldSellSlopeAnalysis [sample 0 10] = Inr False \<and>
   map_sum id fst (shouldBuyConfirmedRecovery (1 / 4, 3 / 4) [sample 0 10] 11 15 30) = Inr False"
  using evaluators_below_minimum [of "[sample 0 10]" 11 None "(1 / 4, 3 / 4)" 15 30]
  by simp

text \<open>
  The claim puts the minimum of the confirmed-recovery buy rule at 3 samples. On the
  two-sample fall 10, 9, when the first draw of \<open>Math.random\<close> is 0.25 and the second
  0.75, the rule returns \<open>shouldBuy = true\<close>.
\<close>

theorem confirmed_recovery_minimum_counterexample:
  "length falling_pair < 3 \<and>
   map_sum id fst (shouldBuyConfirmedRecovery (1 / 4, 3 / 4) falling_pair 9 15 30) = Inr True"
  by code_simp

section \<open>Binary64 rounding is accurate\<close>

text \<open>
  The exponent search ends with the exponent of the last significand bit, so a rounding
  without overflow is off by at most half a unit in the last place: a relative error of
  \<open>2 ^ -53\<close> or, among the subnormal numbers, an absolute error of \<open>2 ^ -1075\<close>.
\<close>

lemma pow2_powr: "pow2 k = 2 powr (real_of_int k)"
  by (simp add: pow2_def powr_int)

lemma pow2_pos [simp]: "0 < pow2 k"
  by (simp add: pow2_powr)

lemma pow2_nonzero [simp]: "pow2 k \<noteq> 0"
  using pow2_pos [of k] by linarith

lemma pow2_add: "pow2 (j + k) = pow2 j * pow2 k"
  by (simp add: pow2_powr powr_add)

lemma pow2_mono: "j \<le> k \<Longrightarrow> pow2 j \<le> pow2 k"
  by (simp add: pow2_powr)

lemma pow2_less_iff: "pow2 j < pow2 k \<longleftrightarrow> j < k"
  by (simp add: pow2_powr)

lemma pow2_numeral: "pow2 (numeral n) = 2 ^ numeral n" "pow2 0 = 1" "pow2 1 = 2"
  "pow2 (- numeral n) = 1 / 2 ^ numeral n" "pow2 (- 1) = 1 / 2"
  by (simp_all add: pow2_def)

lemma exp_down_spec:
  assumes "- 1074 \<le> e0" "a < pow2 (e0 + 53)"
  shows "- 1074 \<le> exp_down a e0 \<and> exp_down a e0 \<le> e0 \<and> a < pow2 (exp_down a e0 + 53) \<and>
    (exp_down a e0 = - 1074 \<or> pow2 (exp_down a e0 + 52) \<le> a)"
  using assms
proof (induction a e0 rule: exp_down.induct)
  case (1 a e)
  show ?case
  proof (cases "- 1074 < e \<and> a < pow2 (e + 52)")
    case True
    moreover have "e - 1 + 53 = e + 52" by arith
    ultimately have "a < pow2 (e - 1 + 53)" by (simp only:)
    with True "1.IH" have "- 1074 \<le> exp_down a (e - 1) \<and> exp_down a (e - 1) \<le> e - 1 \<and>
        a < pow2 (exp_down a (e - 1) + 53) \<and>
        (exp_down a (e - 1) = - 1074 \<or> pow2 (exp_down a (e - 1) + 52) \<le> a)"
      by simp
    moreover have "exp_down a e = exp_down a (e - 1)"
      using True by (subst exp_down.simps) simp
    ultimately show ?thesis by simp
  next
    case False
    then have "exp_down a e = e" by (subst exp_down.simps) (simp only: if_False)
    with False "1.prems" show ?thesis by auto
  qed
qed

lemma exp_up_spec:
  assumes "e0 \<le> 971" "pow2 (e0 + 52) \<le> a" "a < pow2 1024"
  shows "e0 \<le> exp_up a e0 \<and> exp_up a e0 \<le> 971 \<and> a < pow2 (exp_up a e0 + 53) \<and>
    pow2 (exp_up a e0 + 52) \<le> a"
  using assms
proof (induction a e0 rule: exp_up.induct)
  case (1 a e)
  show ?case
  proof (cases "e < 971 \<and> pow2 (e + 53) \<le> a")
    case True
    moreover have "e + 1 + 52 = e + 53" by arith
    ultimately have "pow2 (e + 1 + 52) \<le> a" by (simp only:)
    with True "1.IH" "1.prems" have "e + 1 \<le> exp_up a (e + 1) \<and> exp_up a (e + 1) \<le> 971 \<and>
        a < pow2 (exp_up a (e + 1) + 53) \<and> pow2 (exp_up a (e + 1) + 52) \<le> a"
      by simp
    moreover have "exp_up a e = exp_up a (e + 1)"
      using True by (subst exp_up.simps) simp
    ultimately show ?thesis by simp
  next
    case False
    then have eq: "exp_up a e = e" by (subst exp_up.simps) (simp only: if_False)
    show ?thesis
    proof (cases "e < 971")
      case True
      with False have "a < pow2 (e + 53)" by simp
      with eq "1.prems" show ?thesis by simp
    next
      case False
      with "1.prems" have "e = 971" by simp
      with eq "1.prems" show ?thesis by simp
    qed
  qed
qed

lemma quantum_exp_spec:
  assumes "0 < a" "a < pow2 1024"
  shows "- 1074 \<le> quantum_exp a \<and> quantum_exp a \<le> 971 \<and> a < pow2 (quantum_exp a + 53) \<and>
    (quantum_exp a = - 1074 \<or> pow2 (quantum_exp a + 52) \<le> a)"
proof (cases "pow2 53 \<le> a")
  case True
  then have "pow2 (0 + 52) \<le> a"
    using pow2_mono [of 52 53] by simp
  from exp_up_spec [OF _ this assms(2)] True show ?thesis
    by (simp add: quantum_exp_def)
next
  case False
  then have "a < pow2 (0 + 53)" by simp
  from exp_down_spec [OF _ this] False show ?thesis
    by (simp add: quantum_exp_def)
qed

lemma round_half_even_close: "\<bar>of_int (round_half_even x) - x\<bar> \<le> 1 / 2"
  unfolding round_half_even_def Let_def by (auto; linarith)

lemma signed_distance: "\<bar>(if x < 0 then - m else m) - x\<bar> = \<bar>m - \<bar>x\<bar>\<bar>" for x m :: real
proof (cases "x < 0")
  case True
  then have "\<bar>- m - x\<bar> = \<bar>m - \<bar>x\<bar>\<bar>" by linarith
  with True show ?thesis by simp
next
  case False
  then have "\<bar>m - x\<bar> = \<bar>m - \<bar>x\<bar>\<bar>" by linarith
  with False show ?thesis by simp
qed

lemma f64_error:
  assumes "\<bar>x\<bar> < pow2 1023"
  shows "\<exists>v. f64 x = Fin v \<and> \<bar>v - x\<bar> \<le> \<bar>x\<bar> / 2 ^ 53 + 1 / 2 ^ 1075"
proof (cases "x = 0")
  case True
  then show ?thesis by (simp add: f64_def)
next
  case False
  let ?a = "\<bar>x\<bar>"
  let ?e = "quantum_exp ?a"
  let ?n = "round_half_even (?a / pow2 ?e)"
  let ?m = "of_int ?n * pow2 ?e"
  have a: "0 < ?a" using False by simp
  have "pow2 1023 \<le> pow2 1024" by (rule pow2_mono) simp
  with assms have lt: "?a < pow2 1024" by linarith
  from quantum_exp_spec [OF a lt]
  have e: "- 1074 \<le> ?e" "?e \<le> 971" "?a < pow2 (?e + 53)"
    "?e = - 1074 \<or> pow2 (?e + 52) \<le> ?a"
    by simp_all
  have "\<bar>of_int ?n - ?a / pow2 ?e\<bar> \<le> 1 / 2" by (rule round_half_even_close)
  then have "\<bar>of_int ?n - ?a / pow2 ?e\<bar> * pow2 ?e \<le> 1 / 2 * pow2 ?e"
    by (rule mult_right_mono) (rule less_imp_le, rule pow2_pos)
  moreover have "\<bar>of_int ?n - ?a / pow2 ?e\<bar> * pow2 ?e = \<bar>?m - ?a\<bar>"
  proof -
    have "\<bar>pow2 ?e\<bar> = pow2 ?e" using pow2_pos [of ?e] by linarith
    then have "\<bar>of_int ?n - ?a / pow2 ?e\<bar> * pow2 ?e = \<bar>(of_int ?n - ?a / pow2 ?e) * pow2 ?e\<bar>"
      by (simp add: abs_mult)
    also have "(of_int ?n - ?a / pow2 ?e) * pow2 ?e = ?m - ?a"
      by (simp add: algebra_simps)
    finally show ?thesis .
  qed
  ultimately have close: "\<bar>?m - ?a\<bar> \<le> pow2 ?e / 2" by simp
  have half: "pow2 ?e / 2 \<le> ?a / 2 ^ 53 + 1 / 2 ^ 1075"
  proof (cases "?e = - 1074")
    case True
    then have "pow2 ?e / 2 = 1 / 2 ^ 1075" by (simp add: pow2_def)
    then show ?thesis using a by simp
  next
    case False
    with e(4) have "pow2 (?e + 52) \<le> ?a" by simp
    moreover have "pow2 (?e + 52) = pow2 ?e * 2 ^ 52"
      by (simp only: pow2_add pow2_numeral)
    ultimately have "pow2 ?e * 2 ^ 52 \<le> ?a" by simp
    then have "pow2 ?e / 2 \<le> ?a / 2 ^ 53" by (simp add: field_simps)
    moreover have "(0::real) \<le> 1 / 2 ^ 1075" by simp
    ultimately show ?thesis by linarith
  qed
  have small: "?e \<le> 970"
  proof (rule ccontr)
    assume "\<not> ?e \<le> 970"
    with e(2) have e971: "?e = 971" by simp
    with e(4) have "pow2 1023 \<le> ?a" by simp
    with assms show False by simp
  qed
  have "pow2 ?e \<le> pow2 970" using small by (rule pow2_mono)
  then have "?m \<le> pow2 1023 + pow2 970 / 2" using close assms by linarith
  also have "\<dots> < pow2 1024" by (simp add: pow2_def)
  finally have no_overflow: "\<not> pow2 1024 \<le> ?m" by simp
  have "f64 x = Fin (if x < 0 then - ?m else ?m)"
    using False no_overflow by (simp add: f64_def Let_def)
  moreover have "\<bar>(if x < 0 then - ?m else ?m) - x\<bar> = \<bar>?m - ?a\<bar>"
    by (rule signed_distance)
  ultimately show ?thesis using close half by simp
qed

lemma quantum_exp_eq:
  assumes "0 < a" "a < pow2 (e + 53)" "e = - 1074 \<or> pow2 (e + 52) \<le> a"
    and "- 1074 \<le> e" "e \<le> 971"
  shows "quantum_exp a = e"
proof -
  have "pow2 (e + 53) \<le> pow2 1024" using assms(5) by (intro pow2_mono) simp
  with assms(2) have "a < pow2 1024" by linarith
  from quantum_exp_spec [OF assms(1) this]
  have q: "- 1074 \<le> quantum_exp a" "a < pow2 (quantum_exp a + 53)"
    "quantum_exp a = - 1074 \<or> pow2 (quantum_exp a + 52) \<le> a"
    by simp_all
  have le: "e \<le> quantum_exp a"
  proof (cases "e = - 1074")
    case True
    with q(1) show ?thesis by simp
  next
    case False
    with assms(3) q(2) have "pow2 (e + 52) < pow2 (quantum_exp a + 53)" by linarith
    then show ?thesis by (simp add: pow2_less_iff)
  qed
  have "quantum_exp a \<le> e"
  proof (cases "quantum_exp a = - 1074")
    case True
    with assms(4) show ?thesis by simp
  next
    case False
    with q(3) assms(2) have "pow2 (quantum_exp a + 52) < pow2 (e + 53)" by linarith
    then show ?thesis by (simp add: pow2_less_iff)
  qed
  with le show ?thesis by simp
qed

lemma round_half_even_eq:
  assumes "\<bar>x - of_int n\<bar> < 1 / 2"
  shows "round_half_even x = n"
proof (cases "of_int n \<le> x")
  case True
  with assms have "\<lfloor>x\<rfloor> = n" by linarith
  with assms True show ?thesis by (simp add: round_half_even_def Let_def)
next
  case False
  with assms have f: "\<lfloor>x\<rfloor> = n - 1" by linarith
  with assms False have "1 / 2 < x - of_int \<lfloor>x\<rfloor>" by simp
  with f show ?thesis by (simp add: round_half_even_def Let_def)
qed

text \<open>A positive number rounds to \<open>n * 2 ^ e\<close> once \<open>e\<close> and \<open>n\<close> are checked.\<close>

lemma f64_eval:
  assumes "0 < x" "x < pow2 (e + 53)" "e = - 1074 \<or> pow2 (e + 52) \<le> x"
    and "- 1074 \<le> e" "e \<le> 970" "\<bar>x / pow2 e - of_int n\<bar> < 1 / 2"
    and "v = of_int n * pow2 e"
  shows "f64 x = Fin v"
proof -
  have e: "quantum_exp \<bar>x\<bar> = e"
    using assms(1-5) by (intro quantum_exp_eq) simp_all
  have n: "round_half_even (\<bar>x\<bar> / pow2 e) = n"
    using assms(1,6) by (intro round_half_even_eq) simp
  have "x / pow2 e < pow2 53"
  proof -
    have "pow2 (e + 53) = pow2 53 * pow2 e" by (simp add: pow2_add mult.commute)
    with assms(2) have "x < pow2 53 * pow2 e" by simp
    then show ?thesis by (simp add: pos_divide_less_eq)
  qed
  with assms(6) have "of_int n < pow2 53 + 1 / 2" by linarith
  then have "real_of_int n < 9007199254740992 + 1 / 2" by (simp add: pow2_numeral)
  then have "n \<le> 9007199254740992" by linarith
  then have "real_of_int n \<le> 9007199254740992" by linarith
  then have "real_of_int n \<le> pow2 53" by (simp add: pow2_numeral)
  then have "of_int n * pow2 e \<le> pow2 53 * pow2 e"
    by (rule mult_right_mono) (rule less_imp_le, rule pow2_pos)
  also have "\<dots> = pow2 (e + 53)" by (simp add: pow2_add mult.commute)
  also have "\<dots> \<le> pow2 1023" using assms(5) by (intro pow2_mono) simp
  also have "\<dots> < pow2 1024" by (simp add: pow2_less_iff)
  finally have "\<not> pow2 1024 \<le> of_int n * pow2 e" by simp
  with assms(1,7) e n show ?thesis by (simp add: f64_def Let_def)
qed

lemma f64_div_Fin: "y \<noteq> 0 \<Longrightarrow> f64_div (Fin x) y = f64 (x / y)"
  by simp

lemma parse_fixed2_Fin: "\<bar>x\<bar> < 10 ^ 21 \<Longrightarrow> round2 x = r \<Longrightarrow> parse_fixed2 (Fin x) = f64 r"
  by simp

text \<open>The error of one rounding, and of the whole percentage.\<close>

lemma f64_near:
  assumes "\<bar>x\<bar> \<le> 10 ^ 12"
  shows "\<exists>v. f64 x = Fin v \<and> \<bar>v - x\<bar> \<le> \<bar>x\<bar> * (2 / 10 ^ 16) + 1 / 10 ^ 30"
proof -
  have "(10::real) ^ 12 < pow2 1023" by (simp add: pow2_def)
  with assms have "\<bar>x\<bar> < pow2 1023" by simp
  from f64_error [OF this] obtain v where v: "f64 x = Fin v"
    "\<bar>v - x\<bar> \<le> \<bar>x\<bar> / 2 ^ 53 + 1 / 2 ^ 1075"
    by blast
  have "\<bar>x\<bar> * (1 / 2 ^ 53) \<le> \<bar>x\<bar> * (2 / 10 ^ 16)"
    by (rule mult_left_mono) simp_all
  then have "\<bar>x\<bar> / 2 ^ 53 \<le> \<bar>x\<bar> * (2 / 10 ^ 16)" by simp
  moreover have "(1::real) / 2 ^ 1075 \<le> 1 / 10 ^ 30" by simp
  ultimately have "\<bar>v - x\<bar> \<le> \<bar>x\<bar> * (2 / 10 ^ 16) + 1 / 10 ^ 30" using v(2) by linarith
  with v(1) show ?thesis by blast
qed

lemma round2_close: "\<bar>round2 x - x\<bar> \<le> 1 / 200"
proof (cases "x < 0")
  case True
  define n where "n = \<lfloor>- x * 100 + 1 / 2\<rfloor>"
  have "of_int n \<le> - x * 100 + 1 / 2" "- x * 100 + 1 / 2 < of_int n + 1"
    unfolding n_def by linarith+
  moreover have "round2 x = - (of_int n / 100)"
    using True by (simp add: round2_def n_def)
  ultimately show ?thesis by linarith
next
  case False
  define n where "n = \<lfloor>x * 100 + 1 / 2\<rfloor>"
  have "of_int n \<le> x * 100 + 1 / 2" "x * 100 + 1 / 2 < of_int n + 1"
    unfolding n_def by linarith+
  moreover have "round2 x = of_int n / 100"
    using False by (simp add: round2_def n_def)
  ultimately show ?thesis by linarith
qed

lemma over_price:
  fixes a s :: real
  assumes "1 / 100 \<le> s" "0 \<le> a"
  shows "a / s \<le> a * 100"
proof -
  have "a / s \<le> a / (1 / 100)"
    using assms by (intro divide_left_mono) simp_all
  then show ?thesis by simp
qed

lemma f64_within:
  assumes "\<bar>x\<bar> \<le> B" "B \<le> 10 ^ 12"
  shows "\<exists>v. f64 x = Fin v \<and> \<bar>v - x\<bar> \<le> B * (2 / 10 ^ 16) + 1 / 10 ^ 30 \<and> \<bar>v\<bar> \<le> B + 1"
proof -
  from assms have "\<bar>x\<bar> \<le> 10 ^ 12" by linarith
  from f64_near [OF this] obtain v where v: "f64 x = Fin v"
    "\<bar>v - x\<bar> \<le> \<bar>x\<bar> * (2 / 10 ^ 16) + 1 / 10 ^ 30"
    by blast
  have "\<bar>x\<bar> * (2 / 10 ^ 16) \<le> B * (2 / 10 ^ 16)"
    using assms(1) by (rule mult_right_mono) simp
  with v(2) have close: "\<bar>v - x\<bar> \<le> B * (2 / 10 ^ 16) + 1 / 10 ^ 30" by linarith
  have "B * (2 / 10 ^ 16) \<le> 10 ^ 12 * (2 / 10 ^ 16)"
    using assms(2) by (rule mult_right_mono) simp
  then have "B * (2 / 10 ^ 16) + 1 / 10 ^ 30 \<le> 1" by simp
  with close assms(1) have "\<bar>v\<bar> \<le> B + 1" by linarith
  with v(1) close show ?thesis by blast
qed

lemma percentage_accuracy:
  fixes s t :: real
  assumes "1 / 100 \<le> s" "s \<le> 10 ^ 6" "1 / 100 \<le> t" "t \<le> 10 ^ 6"
  shows "\<exists>v. parse_fixed2 (f64_mul (f64_div (f64_sub t s) s) 100) = Fin v \<and>
    \<bar>v - (t - s) / s * 100\<bar> \<le> 51 / 10000"
proof -
  define d where "d = t - s"
  define exact where "exact = d / s"
  have s: "0 < s" "s \<noteq> 0" using assms(1) by simp_all
  have "\<bar>d\<bar> \<le> 1000000" using assms unfolding d_def by simp
  from f64_within [OF this] obtain g where g: "f64 d = Fin g"
    "\<bar>g - d\<bar> \<le> 3 / 10000000000" "\<bar>g\<bar> \<le> 2 * 1000000"
    by auto
  have "\<bar>g / s\<bar> = \<bar>g\<bar> / s" using s by simp
  also have "\<dots> \<le> \<bar>g\<bar> * 100" using assms(1) by (rule over_price) simp
  finally have "\<bar>g / s\<bar> \<le> 2 * 100000000" using g(3) by simp
  from f64_within [OF this] obtain q where q: "f64 (g / s) = Fin q"
    "\<bar>q - g / s\<bar> \<le> 5 / 100000000" "\<bar>q\<bar> \<le> 3 * 100000000"
    by auto
  have "\<bar>g / s - d / s\<bar> = \<bar>g - d\<bar> / s" using s by (simp add: diff_divide_distrib [symmetric])
  also have "\<dots> \<le> \<bar>g - d\<bar> * 100" using assms(1) by (rule over_price) simp
  finally have "\<bar>g / s - exact\<bar> \<le> 3 / 100000000" using g(2) by (simp add: exact_def)
  with q(2) have qd: "\<bar>q - exact\<bar> \<le> 8 / 100000000" by linarith
  have "\<bar>q * 100\<bar> \<le> 3 * 10000000000" using q(3) by simp
  from f64_within [OF this] obtain p where p: "f64 (q * 100) = Fin p"
    "\<bar>p - q * 100\<bar> \<le> 7 / 1000000" "\<bar>p\<bar> \<le> 4 * 10000000000"
    by auto
  from qd have "\<bar>q * 100 - exact * 100\<bar> \<le> 8 / 1000000" by linarith
  with p(2) have pP: "\<bar>p - exact * 100\<bar> \<le> 15 / 1000000" by linarith
  have r: "\<bar>round2 p - p\<bar> \<le> 1 / 200" by (rule round2_close)
  with p(3) have "\<bar>round2 p\<bar> \<le> 5 * 10000000000" by linarith
  from f64_within [OF this] obtain v where v: "f64 (round2 p) = Fin v"
    "\<bar>v - round2 p\<bar> \<le> 11 / 1000000"
    by auto
  have "\<not> 10 ^ 21 \<le> \<bar>p\<bar>" using p(3) by simp
  then have "parse_fixed2 (f64_mul (f64_div (f64_sub t s) s) 100) = Fin v"
    using g(1) q(1) p(1) v(1) s by (simp add: f64_sub_def d_def)
  moreover have "\<bar>v - exact * 100\<bar> \<le> 51 / 10000"
    using v(2) r pP by linarith
  then have "\<bar>v - (t - s) / s * 100\<bar> \<le> 51 / 10000"
    by (simp only: exact_def d_def)
  ultimately show ?thesis by blast
qed

section \<open>Beat sequences are maximal rising runs\<close>

lemma make_beat_ok:
  assumes "0 \<le> a" "a < e" "e < int (length data)"
    and "\<forall>j. a \<le> j \<and> j < e \<longrightarrow> price (data ! nat j) < price (data ! nat (j + 1))"
    and "e + 1 < int (length data) \<longrightarrow> price (data ! nat (e + 1)) \<le> price (data ! nat e)"
  shows "\<exists>b. make_beat data a e = Inr b \<and> beat_ok data b"
proof -
  have "elem_at data a = Inr (data ! nat a)" "elem_at data e = Inr (data ! nat e)"
    using assms(1-3) by (simp_all add: elem_at_def)
  then show ?thesis using assms
    by (simp add: make_beat_def Let_def beat_ok_def)
qed

lemma beat_step_inv:
  assumes "1 \<le> i" "i < int (length data)" "beat_inv data i st"
  shows "\<exists>st'. beat_step data m i st = Inr st' \<and> beat_inv data (i + 1) st'"
proof -
  obtain sequences start cnt where st: "st = (sequences, start, cnt)"
    by (cases st) auto
  have reads: "price_at data i = Inr (price (data ! nat i))"
    "price_at data (i - 1) = Inr (price (data ! nat (i - 1)))"
    using assms(1,2) by (simp_all add: price_at_in_range)
  have oks: "\<forall>b \<in> set sequences. beat_ok data b" and cnt0: "0 \<le> cnt"
    and idle: "cnt = 0 \<longrightarrow> start = - 1"
    and run: "0 < cnt \<longrightarrow> start = i - 1 - cnt \<and> 0 \<le> start \<and>
           (\<forall>j. start \<le> j \<and> j < i - 1 \<longrightarrow> price (data ! nat j) < price (data ! nat (j + 1)))"
    using assms(3) unfolding beat_inv_def st prod.case by blast+
  show ?thesis
  proof (cases "price (data ! nat i) - price (data ! nat (i - 1)) > 0")
    case True
    have up: "price (data ! nat (i - 1)) < price (data ! nat ((i - 1) + 1))"
      using True by simp
    have step: "beat_step data m i st = Inr (sequences, (if cnt = 0 then i - 1 else start), cnt + 1)"
      using True by (simp add: beat_step_def st reads Let_def)
    have "\<forall>j. (if cnt = 0 then i - 1 else start) \<le> j \<and> j < i \<longrightarrow>
        price (data ! nat j) < price (data ! nat (j + 1))"
    proof (intro allI impI)
      fix j assume j: "(if cnt = 0 then i - 1 else start) \<le> j \<and> j < i"
      show "price (data ! nat j) < price (data ! nat (j + 1))"
      proof (cases "j = i - 1")
        case True
        with up show ?thesis by simp
      next
        case False
        with j have "cnt \<noteq> 0" "start \<le> j" "j < i - 1" by (auto split: if_splits)
        with run cnt0 show ?thesis by simp
      qed
    qed
    moreover have "(if cnt = 0 then i - 1 else start) = i - 1 - cnt"
      using run cnt0 by auto
    moreover have "0 \<le> i - 1 - cnt" using run cnt0 assms(1) by (cases "cnt = 0") auto
    ultimately have "beat_inv data (i + 1) (sequences, (if cnt = 0 then i - 1 else start), cnt + 1)"
      using oks cnt0 by (simp add: beat_inv_def)
    with step show ?thesis by simp
  next
    case False
    then have down: "price (data ! nat ((i - 1) + 1)) \<le> price (data ! nat (i - 1))" by simp
    show ?thesis
    proof (cases "cnt \<ge> m \<and> start \<ge> 0")
      case True
      then have pos: "0 < cnt" using idle cnt0 by (cases "cnt = 0") auto
      with run have r: "start = i - 1 - cnt" "0 \<le> start"
        "\<forall>j. start \<le> j \<and> j < i - 1 \<longrightarrow> price (data ! nat j) < price (data ! nat (j + 1))"
        by simp_all
      have "\<exists>b. make_beat data start (i - 1) = Inr b \<and> beat_ok data b"
      proof (rule make_beat_ok)
        show "0 \<le> start" by (rule r(2))
        show "start < i - 1" using r(1) pos by simp
        show "i - 1 < int (length data)" using assms(2) by simp
        show "\<forall>j. start \<le> j \<and> j < i - 1 \<longrightarrow> price (data ! nat j) < price (data ! nat (j + 1))"
          by (rule r(3))
        show "i - 1 + 1 < int (length data) \<longrightarrow>
          price (data ! nat (i - 1 + 1)) \<le> price (data ! nat (i - 1))"
          using down by simp
      qed
      then obtain b where b: "make_beat data start (i - 1) = Inr b" "beat_ok data b" by blast
      have "beat_step data m i st = Inr (sequences @ [b], - 1, 0)"
        using False True b(1) by (simp add: beat_step_def st reads Let_def)
      moreover have "beat_inv data (i + 1) (sequences @ [b], - 1, 0)"
        using oks b(2) by (simp add: beat_inv_def)
      ultimately show ?thesis by simp
    next
      case no: False
      have "beat_step data m i st = Inr (sequences, - 1, 0)"
        using False no by (auto simp add: beat_step_def st reads Let_def)
      moreover have "beat_inv data (i + 1) (sequences, - 1, 0)"
        using oks by (simp add: beat_inv_def)
      ultimately show ?thesis by simp
    qed
  qed
qed

lemma detectBeatSequences_ok:
  "\<exists>seqs. detectBeatSequences data m = Inr seqs \<and> (\<forall>b \<in> set seqs. beat_ok data b)"
proof (cases "int (length data) < m + 1")
  case True
  then show ?thesis by (simp add: detectBeatSequences_def)
next
  case False
  let ?n = "int (length data)"
  show ?thesis
  proof (cases "length data = 0")
    case True
    then have "index_range 1 ?n = []" by (simp add: index_range_def)
    with False show ?thesis by (simp add: detectBeatSequences_def)
  next
    case nonempty: False
    then have "(1::int) \<le> ?n" by (cases data) simp_all
    moreover have "beat_inv data 1 ([], - 1, 0)" by (simp add: beat_inv_def)
    ultimately have "\<exists>st. for_each (index_range 1 ?n) (beat_step data m) ([], - 1, 0) = Inr st \<and>
        beat_inv data ?n st"
      by (rule for_each_range_rule) (rule beat_step_inv)
    then obtain sequences start cnt
      where loop: "for_each (index_range 1 ?n) (beat_step data m) ([], - 1, 0) =
          Inr (sequences, start, cnt)"
        and inv: "beat_inv data ?n (sequences, start, cnt)"
      by (metis prod_cases3)
    have oks: "\<forall>b \<in> set sequences. beat_ok data b" and cnt0: "0 \<le> cnt"
      and idle: "cnt = 0 \<longrightarrow> start = - 1"
      and run: "0 < cnt \<longrightarrow> start = ?n - 1 - cnt \<and> 0 \<le> start \<and>
           (\<forall>j. start \<le> j \<and> j < ?n - 1 \<longrightarrow> price (data ! nat j) < price (data ! nat (j + 1)))"
      using inv unfolding beat_inv_def prod.case by blast+
    show ?thesis
    proof (cases "cnt \<ge> m \<and> start \<ge> 0")
      case True
      then have pos: "0 < cnt" using idle cnt0 by (cases "cnt = 0") auto
      with run have r: "start = ?n - 1 - cnt" "0 \<le> start"
        "\<forall>j. start \<le> j \<and> j < ?n - 1 \<longrightarrow> price (data ! nat j) < price (data ! nat (j + 1))"
        by simp_all
      have "\<exists>b. make_beat data start (?n - 1) = Inr b \<and> beat_ok data b"
      proof (rule make_beat_ok)
        show "0 \<le> start" by (rule r(2))
        show "start < ?n - 1" using r(1) pos by simp
        show "?n - 1 < ?n" by simp
        show "\<forall>j. start \<le> j \<and> j < ?n - 1 \<longrightarrow> price (data ! nat j) < price (data ! nat (j + 1))"
          by (rule r(3))
        show "?n - 1 + 1 < ?n \<longrightarrow> price (data ! nat (?n - 1 + 1)) \<le> price (data ! nat (?n - 1))"
          by simp
      qed
      then obtain b where b: "make_beat data start (?n - 1) = Inr b" "beat_ok data b" by blast
      have "detectBeatSequences data m = Inr (sequences @ [b])"
        using False True loop b(1) by (simp add: detectBeatSequences_def)
      with oks b(2) show ?thesis by simp
    next
      case no: False
      have "detectBeatSequences data m = Inr sequences"
        using False no loop by (auto simp add: detectBeatSequences_def)
      with oks show ?thesis by simp
    qed
  qed
qed

lemma length_trimmed: "3 \<le> length xs \<Longrightarrow> length (js_slice xs 1 (- 1)) = length xs - 2"
  by (simp add: js_slice_def slice_bound_def Let_def)

lemma trim_sequence_ok:
  assumes "\<forall>p \<in> set acc. pp_ok p"
  shows "\<exists>acc'. trim_sequence sq acc = Inr acc' \<and> (\<forall>p \<in> set acc'. pp_ok p)"
proof (cases "length (dataPoints sq) < 3")
  case True
  with assms show ?thesis by (simp add: trim_sequence_def)
next
  case False
  let ?t = "js_slice (dataPoints sq) 1 (- 1)"
  have len: "length ?t = length (dataPoints sq) - 2"
    using False by (simp add: length_trimmed)
  then have pos: "0 < length ?t" using False by simp
  then have reads: "elem_at ?t 0 = Inr (?t ! 0)"
    "elem_at ?t (int (length ?t) - 1) = Inr (?t ! nat (int (length ?t) - 1))"
    by (simp_all add: elem_at_def)
  show ?thesis using False pos assms
    by (simp add: trim_sequence_def Let_def reads pp_ok_def)
qed

lemma calculatePotentialProfitSequences_ok:
  "\<exists>pps. calculatePotentialProfitSequences bs = Inr pps \<and> (\<forall>p \<in> set pps. pp_ok p)"
  unfolding calculatePotentialProfitSequences_def
  by (rule for_each_list_rule) (simp_all add: trim_sequence_ok)

text \<open>Scenario A with a minimum run of 3: the one sequence found.\<close>

text \<open>
  Scenario A in binary64: the gain 3, the quotient nearest to 0.3, the percentage 30, and
  what \<open>toFixed(2)\<close> and \<open>parseFloat\<close> make of 3 and 30.
\<close>

lemma gain_A: "f64_sub 13 10 = Fin 3"
  unfolding f64_sub_def
  by (rule f64_eval [where e = "- 51" and n = 6755399441055744]) (simp_all add: pow2_numeral)

lemma ratio_A: "f64_div (Fin 3) 10 = Fin (5404319552844595 / 18014398509481984)"
  by (subst f64_div_Fin, simp, rule f64_eval [where e = "- 54" and n = 5404319552844595]) (simp_all add: pow2_numeral)

lemma percentage_A: "f64_mul (Fin (5404319552844595 / 18014398509481984)) 100 = Fin 30"
  unfolding f64_mul.simps
  by (rule f64_eval [where e = "- 48" and n = 8444249301319680]) (simp_all add: pow2_numeral)

lemma fixed_A: "parse_fixed2 (Fin 3) = Fin 3" "parse_fixed2 (Fin 30) = Fin 30"
proof -
  have "parse_fixed2 (Fin 3) = f64 3"
    by (rule parse_fixed2_Fin) (simp_all add: round2_def)
  also have "f64 3 = Fin 3"
    by (rule f64_eval [where e = "- 51" and n = 6755399441055744]) (simp_all add: pow2_numeral)
  finally show "parse_fixed2 (Fin 3) = Fin 3" .
  have "parse_fixed2 (Fin 30) = f64 30"
    by (rule parse_fixed2_Fin) (simp_all add: round2_def)
  also have "f64 30 = Fin 30"
    by (rule f64_eval [where e = "- 48" and n = 8444249301319680]) (simp_all add: pow2_numeral)
  finally show "parse_fixed2 (Fin 30) = Fin 30" .
qed

lemmas beat_eval = detectBeatSequences_def index_range_def upto_rec1 beat_step_def
  price_at_def elem_at_def make_beat_def js_slice_def slice_bound_def Let_def

lemma detect_A3: "detectBeatSequences series_A 3 = Inr [beat_A]"
  by (simp add: series_A_def sample_def beat_eval beat_A_def gain_A ratio_A percentage_A
      fixed_A del: f64_div.simps f64_mul.simps parse_fixed2.simps)

text \<open>
  C5. On every series and for every minimum run, \<open>detectBeatSequences\<close> returns, and
  every sequence it emits lies inside the series, has strictly rising prices between each
  consecutive pair of samples from \<open>startIndex\<close> to \<open>endIndex\<close>, and, when a sample
  follows \<open>endIndex\<close>, that sample's price is at most the price at \<open>endIndex\<close>.
\<close>

theorem beat_sequences_rise_then_stop:
  "\<exists>seqs. detectBeatSequences data minConsecutiveIntervals = Inr seqs \<and>
     (\<forall>b \<in> set seqs.
        0 \<le> startIndex b \<and> startIndex b < endIndex b \<and> endIndex b < int (length data) \<and>
        (\<forall>j. startIndex b \<le> j \<and> j < endIndex b \<longrightarrow>
           price (data ! nat j) < price (data ! nat (j + 1))) \<and>
        (endIndex b + 1 < int (length data) \<longrightarrow>
           price (data ! nat (endIndex b + 1)) \<le> price (data ! nat (endIndex b))))"
proof -
  from detectBeatSequences_ok [of data minConsecutiveIntervals] obtain seqs
    where "detectBeatSequences data minConsecutiveIntervals = Inr seqs"
      and "\<forall>b \<in> set seqs. beat_ok data b"
    by blast
  then show ?thesis unfolding beat_ok_def by blast
qed

theorem beat_sequences_rise_then_stop_witness:
  "detectBeatSequences series_A 3 = Inr [beat_A] \<and>
   price (series_A ! 0) < price (series_A ! 1) \<and>
   price (series_A ! 1) < price (series_A ! 2) \<and>
   price (series_A ! 2) < price (series_A ! 3) \<and>
   price (series_A ! 4) \<le> price (series_A ! 3)"
  using beat_sequences_rise_then_stop [of series_A 3]
  by (simp add: detect_A3) (simp add: series_A_def sample_def)



text \<open>
  Between the prices 0.01 and 1,000,000 the stored percentage is a finite number within
  0.0051 of the exact quotient, hence within 0.0101 of the exact quotient rounded to two
  decimals.
\<close>

lemma stored_percentage_close:
  assumes "quoted_price s" "quoted_price t"
  shows "\<exists>v. parse_fixed2 (f64_mul (f64_div (f64_sub t s) s) 100) = Fin v \<and>
    \<bar>v - (t - s) / s * 100\<bar> \<le> 51 / 10000 \<and> \<bar>v - spec_percentage s t\<bar> \<le> 101 / 10000"
proof -
  from assms have "1 / 100 \<le> s" "s \<le> 10 ^ 6" "1 / 100 \<le> t" "t \<le> 10 ^ 6"
    by (simp_all add: quoted_price_def)
  from percentage_accuracy [OF this] obtain v
    where v: "parse_fixed2 (f64_mul (f64_div (f64_sub t s) s) 100) = Fin v"
      "\<bar>v - (t - s) / s * 100\<bar> \<le> 51 / 10000"
    by blast
  have "\<bar>spec_percentage s t - (t - s) / s * 100\<bar> \<le> 1 / 200"
    unfolding spec_percentage_def by (rule round2_close)
  with v(2) have "\<bar>v - spec_percentage s t\<bar> \<le> 101 / 10000" by linarith
  with v show ?thesis by blast
qed

text \<open>
  C8, as the code has it. In every sequence emitted by \<open>detectBeatSequences\<close> and in
  every sequence emitted by \<open>calculatePotentialProfitSequences\<close>, the stored
  \<open>percentageChange\<close> is \<open>(gain / startPrice) * 100\<close> evaluated in binary64 arithmetic,
  with \<open>gain\<close> the difference \<open>endPrice - startPrice\<close> of the sequence's own two prices,
  then rounded to two decimals by \<open>toFixed(2)\<close> and parsed. When both prices lie between
  0.01 and 1,000,000 it is within 0.0051 of the exact quotient and within 0.0101 of the
  exact quotient rounded to two decimals: it is that value or the hundredth next to it.
\<close>

theorem percentage_change_binary64:
  "(\<exists>seqs. detectBeatSequences data minConsecutiveIntervals = Inr seqs \<and>
      (\<forall>b \<in> set seqs.
         percentageChange b =
           parse_fixed2
             (f64_mul (f64_div (f64_sub (endPrice b) (startPrice b)) (startPrice b)) 100) \<and>
         (quoted_price (startPrice b) \<and> quoted_price (endPrice b) \<longrightarrow>
            (\<exists>v. percentageChange b = Fin v \<and>
               \<bar>v - (endPrice b - startPrice b) / startPrice b * 100\<bar> \<le> 51 / 10000 \<and>
               \<bar>v - spec_percentage (startPrice b) (endPrice b)\<bar> \<le> 101 / 10000)))) \<and>
   (\<exists>pps. calculatePotentialProfitSequences beatSequences = Inr pps \<and>
      (\<forall>p \<in> set pps.
         pp_percentageChange p =
           parse_fixed2
             (f64_mul (f64_div (f64_sub (pp_endPrice p) (pp_startPrice p)) (pp_startPrice p))
                100) \<and>
         (quoted_price (pp_startPrice p) \<and> quoted_price (pp_endPrice p) \<longrightarrow>
            (\<exists>v. pp_percentageChange p = Fin v \<and>
               \<bar>v - (pp_endPrice p - pp_startPrice p) / pp_startPrice p * 100\<bar> \<le> 51 / 10000 \<and>
               \<bar>v - spec_percentage (pp_startPrice p) (pp_endPrice p)\<bar> \<le> 101 / 10000))))"
proof
  from detectBeatSequences_ok [of data minConsecutiveIntervals] obtain seqs
    where seqs: "detectBeatSequences data minConsecutiveIntervals = Inr seqs"
      and ok: "\<forall>b \<in> set seqs. beat_ok data b"
    by blast
  have "\<forall>b \<in> set seqs.
      percentageChange b =
        parse_fixed2
          (f64_mul (f64_div (f64_sub (endPrice b) (startPrice b)) (startPrice b)) 100) \<and>
      (quoted_price (startPrice b) \<and> quoted_price (endPrice b) \<longrightarrow>
         (\<exists>v. percentageChange b = Fin v \<and>
            \<bar>v - (endPrice b - startPrice b) / startPrice b * 100\<bar> \<le> 51 / 10000 \<and>
            \<bar>v - spec_percentage (startPrice b) (endPrice b)\<bar> \<le> 101 / 10000))"
  proof (intro ballI conjI impI)
    fix b assume "b \<in> set seqs"
    with ok show stored: "percentageChange b =
        parse_fixed2
          (f64_mul (f64_div (f64_sub (endPrice b) (startPrice b)) (startPrice b)) 100)"
      by (simp add: beat_ok_def)
    assume "quoted_price (startPrice b) \<and> quoted_price (endPrice b)"
    then show "\<exists>v. percentageChange b = Fin v \<and>
        \<bar>v - (endPrice b - startPrice b) / startPrice b * 100\<bar> \<le> 51 / 10000 \<and>
        \<bar>v - spec_percentage (startPrice b) (endPrice b)\<bar> \<le> 101 / 10000"
      using stored_percentage_close [of "startPrice b" "endPrice b"] by (simp add: stored)
  qed
  with seqs show "\<exists>seqs. detectBeatSequences data minConsecutiveIntervals = Inr seqs \<and>
      (\<forall>b \<in> set seqs.
         percentageChange b =
           parse_fixed2
             (f64_mul (f64_div (f64_sub (endPrice b) (startPrice b)) (startPrice b)) 100) \<and>
         (quoted_price (startPrice b) \<and> quoted_price (endPrice b) \<longrightarrow>
            (\<exists>v. percentageChange b = Fin v \<and>
               \<bar>v - (endPrice b - startPrice b) / startPrice b * 100\<bar> \<le> 51 / 10000 \<and>
               \<bar>v - spec_percentage (startPrice b) (endPrice b)\<bar> \<le> 101 / 10000)))"
    by blast
next
  from calculatePotentialProfitSequences_ok [of beatSequences] obtain pps
    where pps: "calculatePotentialProfitSequences beatSequences = Inr pps"
      and ok: "\<forall>p \<in> set pps. pp_ok p"
    by blast
  have "\<forall>p \<in> set pps.
      pp_percentageChange p =
        parse_fixed2
          (f64_mul (f64_div (f64_sub (pp_endPrice p) (pp_startPrice p)) (pp_startPrice p))
             100) \<and>
      (quoted_price (pp_startPrice p) \<and> quoted_price (pp_endPrice p) \<longrightarrow>
         (\<exists>v. pp_percentageChange p = Fin v \<and>
            \<bar>v - (pp_endPrice p - pp_startPrice p) / pp_startPrice p * 100\<bar> \<le> 51 / 10000 \<and>
            \<bar>v - spec_percentage (pp_startPrice p) (pp_endPrice p)\<bar> \<le> 101 / 10000))"
  proof (intro ballI conjI impI)
    fix p assume "p \<in> set pps"
    with ok show stored: "pp_percentageChange p =
        parse_fixed2
          (f64_mul (f64_div (f64_sub (pp_endPrice p) (pp_startPrice p)) (pp_startPrice p))
             100)"
      by (simp add: pp_ok_def)
    assume "quoted_price (pp_startPrice p) \<and> quoted_price (pp_endPrice p)"
    then show "\<exists>v. pp_percentageChange p = Fin v \<and>
        \<bar>v - (pp_endPrice p - pp_startPrice p) / pp_startPrice p * 100\<bar> \<le> 51 / 10000 \<and>
        \<bar>v - spec_percentage (pp_startPrice p) (pp_endPrice p)\<bar> \<le> 101 / 10000"
      using stored_percentage_close [of "pp_startPrice p" "pp_endPrice p"]
      by (simp add: stored)
  qed
  with pps show "\<exists>pps. calculatePotentialProfitSequences beatSequences = Inr pps \<and>
      (\<forall>p \<in> set pps.
         pp_percentageChange p =
           parse_fixed2
             (f64_mul (f64_div (f64_sub (pp_endPrice p) (pp_startPrice p)) (pp_startPrice p))
                100) \<and>
         (quoted_price (pp_startPrice p) \<and> quoted_price (pp_endPrice p) \<longrightarrow>
            (\<exists>v. pp_percentageChange p = Fin v \<and>
               \<bar>v - (pp_endPrice p - pp_startPrice p) / pp_startPrice p * 100\<bar> \<le> 51 / 10000 \<and>
               \<bar>v - spec_percentage (pp_startPrice p) (pp_endPrice p)\<bar> \<le> 101 / 10000)))"
    by blast
qed

text \<open>
  The trimmed span of scenario A, 11 to 12, in binary64: the quotient, the percentage
  9.090909090909092 and the stored 9.09.
\<close>

lemma trimmed_A:
  "f64_sub 12 11 = Fin 1"
  "f64_div (Fin 1) 11 = Fin (3275345183542179 / 36028797018963968)"
  "f64_mul (Fin (3275345183542179 / 36028797018963968)) 100 =
     Fin (5117726849284655 / 562949953421312)"
  "parse_fixed2 (Fin (5117726849284655 / 562949953421312)) = f64 (909 / 100)"
proof -
  show "f64_sub 12 11 = Fin 1"
    unfolding f64_sub_def
    by (rule f64_eval [where e = "- 52" and n = 4503599627370496]) (simp_all add: pow2_numeral)
  show "f64_div (Fin 1) 11 = Fin (3275345183542179 / 36028797018963968)"
    by (subst f64_div_Fin, simp, rule f64_eval [where e = "- 56" and n = 6550690367084358]) (simp_all add: pow2_numeral)
  show "f64_mul (Fin (3275345183542179 / 36028797018963968)) 100 =
     Fin (5117726849284655 / 562949953421312)"
    unfolding f64_mul.simps
    by (rule f64_eval [where e = "- 49" and n = 5117726849284655]) (simp_all add: pow2_numeral)
  show "parse_fixed2 (Fin (5117726849284655 / 562949953421312)) = f64 (909 / 100)"
    by (rule parse_fixed2_Fin) (simp_all add: round2_def)
qed

lemma profit_A:
  "map_sum id (map pp_percentageChange) (calculatePotentialProfitSequences [beat_A]) =
     Inr [f64 (909 / 100)]"
  by (simp add: calculatePotentialProfitSequences_def trim_sequence_def beat_A_def sample_def
      js_slice_def slice_bound_def elem_at_def Let_def trimmed_A
      del: f64_div.simps f64_mul.simps parse_fixed2.simps)

theorem percentage_change_binary64_witness:
  "detectBeatSequences series_A 3 = Inr [beat_A] \<and>
   startPrice beat_A = 10 \<and> endPrice beat_A = 13 \<and> quoted_price 10 \<and> quoted_price 13 \<and>
   percentageChange beat_A = Fin 30 \<and> spec_percentage 10 13 = 30 \<and>
   map_sum id (map pp_percentageChange) (calculatePotentialProfitSequences [beat_A]) =
     Inr [f64 (909 / 100)] \<and>
   spec_percentage 11 12 = 909 / 100"
proof -
  have "quoted_price 10" "quoted_price 13" by (simp_all add: quoted_price_def)
  moreover have "spec_percentage 10 13 = 30" "spec_percentage 11 12 = 909 / 100"
    by (simp_all add: spec_percentage_def round2_def)
  moreover have "startPrice beat_A = 10" "endPrice beat_A = 13" "percentageChange beat_A = Fin 30"
    by (simp_all add: beat_A_def)
  ultimately show ?thesis
    using percentage_change_binary64 [of series_A 3 "[beat_A]"] detect_A3 profit_A
    by simp
qed

text \<open>
  The claim has the stored percentage equal to the exact quotient rounded to two decimals.
  On the prices 160, 161, 162, 163, 183 with a minimum run of 4 the sequence runs from 160
  to 183: the exact percentage is 14.375, which rounds to 14.38, and the code, whose
  binary64 product is 14.374999999999998, stores 14.37.
\<close>

lemma tie_values:
  "f64_sub 183 160 = Fin 23"
  "f64_div (Fin 23) 160 = Fin (2589569785738035 / 18014398509481984)"
  "f64_mul (Fin (2589569785738035 / 18014398509481984)) 100 =
     Fin (8092405580431359 / 562949953421312)"
  "parse_fixed2 (Fin (8092405580431359 / 562949953421312)) = f64 (1437 / 100)"
proof -
  show "f64_sub 183 160 = Fin 23"
    unfolding f64_sub_def
    by (rule f64_eval [where e = "- 48" and n = 6473924464345088]) (simp_all add: pow2_numeral)
  show "f64_div (Fin 23) 160 = Fin (2589569785738035 / 18014398509481984)"
    by (subst f64_div_Fin, simp, rule f64_eval [where e = "- 55" and n = 5179139571476070]) (simp_all add: pow2_numeral)
  show "f64_mul (Fin (2589569785738035 / 18014398509481984)) 100 =
     Fin (8092405580431359 / 562949953421312)"
    unfolding f64_mul.simps
    by (rule f64_eval [where e = "- 49" and n = 8092405580431359]) (simp_all add: pow2_numeral)
  show "parse_fixed2 (Fin (8092405580431359 / 562949953421312)) = f64 (1437 / 100)"
    by (rule parse_fixed2_Fin) (simp_all add: round2_def)
qed

lemma hundredths_apart:
  "f64 (1437 / 100) = Fin (8089590830664253 / 562949953421312)"
  "f64 (1438 / 100) = Fin (8095220330198467 / 562949953421312)"
proof -
  show "f64 (1437 / 100) = Fin (8089590830664253 / 562949953421312)"
    by (rule f64_eval [where e = "- 49" and n = 8089590830664253]) (simp_all add: pow2_numeral)
  show "f64 (1438 / 100) = Fin (8095220330198467 / 562949953421312)"
    by (rule f64_eval [where e = "- 49" and n = 8095220330198467]) (simp_all add: pow2_numeral)
qed

theorem percentage_change_counterexample:
  "map_sum id (map (\<lambda>b. (startPrice b, endPrice b, percentageChange b)))
     (detectBeatSequences tie_series 4) = Inr [(160, 183, f64 (1437 / 100))] \<and>
   spec_percentage 160 183 = 1438 / 100 \<and>
   f64 (1437 / 100) \<noteq> f64 (1438 / 100)"
proof -
  have "map_sum id (map (\<lambda>b. (startPrice b, endPrice b, percentageChange b)))
     (detectBeatSequences tie_series 4) = Inr [(160, 183, f64 (1437 / 100))]"
    by (simp add: tie_series_def sample_def beat_eval tie_values
        del: f64_div.simps f64_mul.simps parse_fixed2.simps)
  moreover have "spec_percentage 160 183 = 1438 / 100"
    by (simp add: spec_percentage_def round2_def)
  moreover have "f64 (1437 / 100) \<noteq> f64 (1438 / 100)"
    using hundredths_apart by simp
  ultimately show ?thesis by simp
qed

text \<open>
  C3, as the code has it. The series 10, 11, 12, 13, 9 holds three rising intervals. With
  \<open>minConsecutiveIntervals = 3\<close>, \<open>detectBeatSequences\<close> returns exactly one sequence,
  from index 0 (price 10) to index 3 (price 13), with gain 3.00 and percentage 30.00, the
  drop to 9 left out; with \<open>minConsecutiveIntervals = 4\<close> it returns none.
\<close>

theorem scenario_A_three_intervals:
  "detectBeatSequences series_A 3 = Inr [beat_A] \<and>
   startIndex beat_A = 0 \<and> endIndex beat_A = 3 \<and> startPrice beat_A = 10 \<and>
   endPrice beat_A = 13 \<and> dollarGain beat_A = Fin 3 \<and> percentageChange beat_A = Fin 30 \<and>
   map price (dataPoints beat_A) = [10, 11, 12, 13] \<and>
   detectBeatSequences series_A 4 = Inr []"
  by (simp add: detect_A3) (simp add: beat_A_def series_A_def sample_def beat_eval)

text \<open>
  The claim expects one sequence for a minimum run of 4; a run of three rising intervals
  is too short for it.
\<close>

theorem scenario_A_counterexample: "detectBeatSequences series_A 4 = Inr []"
  by (simp add: series_A_def sample_def beat_eval)

section \<open>The overlay and the dispatcher\<close>

text \<open>
  No read of the evaluators, the overlay or the dispatcher is out of range: each of them
  returns, for every bot, series, price and draw.
\<close>

lemma last_two_prices:
  assumes "2 \<le> length data"
  shows "price_at data (int (length data) - 1) = Inr (price (data ! (length data - 1)))"
    and "price_at data (int (length data) - 2) = Inr (price (data ! (length data - 2)))"
  using assms by (auto simp add: price_at_def elem_at_def nat_diff_distrib)

lemma last_change_returns:
  assumes "length ps \<noteq> 0"
  shows "elem_at ps (int (length ps) - 1) = Inr (ps ! (length ps - 1))"
proof -
  have "nat (int (length ps) - 1) = length ps - 1" by simp
  with assms show ?thesis by (simp add: elem_at_def)
qed

lemma shouldBuyTrendReversal_returns: "\<exists>b. shouldBuyTrendReversal data = Inr b"
proof -
  obtain ps where "getDirectionChangePoints data = Inr ps"
    using getDirectionChangePoints_inv by blast
  then show ?thesis
    by (cases "length ps = 0") (auto simp add: shouldBuyTrendReversal_def last_change_returns)
qed

lemma shouldSellTrendReversal_returns: "\<exists>b. shouldSellTrendReversal data = Inr b"
proof -
  obtain ps where "getDirectionChangePoints data = Inr ps"
    using getDirectionChangePoints_inv by blast
  then show ?thesis
    by (cases "length ps = 0") (auto simp add: shouldSellTrendReversal_def last_change_returns)
qed

lemma shouldBuyDirectionChangeBuy_returns:
  "\<exists>b. shouldBuyDirectionChangeBuy data lpi = Inr b"
proof -
  obtain ps where "getDirectionChangePoints data = Inr ps"
    using getDirectionChangePoints_inv by blast
  then show ?thesis
    by (cases "length ps = 0")
      (auto simp add: shouldBuyDirectionChangeBuy_def last_change_returns Let_def)
qed

lemma shouldBuyDirectionChangeReference_returns:
  "\<exists>b. shouldBuyDirectionChangeReference data cp = Inr b"
proof -
  obtain ps where "getDirectionChangePoints data = Inr ps"
    using getDirectionChangePoints_inv by blast
  then show ?thesis
    by (cases "last_or_null ps")
      (auto simp add: shouldBuyDirectionChangeReference_def getLastDirectionChangePoint_def)
qed

lemma two_sample_rules_return:
  "\<exists>b. shouldBuyPriceComparison data = Inr b" "\<exists>b. shouldSellPriceComparison data = Inr b"
  "\<exists>b. shouldBuySlopeAnalysis data = Inr b" "\<exists>b. shouldSellSlopeAnalysis data = Inr b"
  "\<exists>b. isLastIntervalDownward data = Inr b"
proof -
  show "\<exists>b. shouldBuyPriceComparison data = Inr b"
    by (cases "2 \<le> length data") (auto simp add: shouldBuyPriceComparison_def last_two_prices)
  show "\<exists>b. shouldSellPriceComparison data = Inr b"
    by (cases "2 \<le> length data") (auto simp add: shouldSellPriceComparison_def last_two_prices)
  show "\<exists>b. shouldBuySlopeAnalysis data = Inr b"
    by (cases "2 \<le> length data") (auto simp add: shouldBuySlopeAnalysis_def last_two_prices)
  show "\<exists>b. shouldSellSlopeAnalysis data = Inr b"
    by (cases "2 \<le> length data") (auto simp add: shouldSellSlopeAnalysis_def last_two_prices)
  show "\<exists>b. isLastIntervalDownward data = Inr b"
    by (cases "2 \<le> length data") (auto simp add: isLastIntervalDownward_def last_two_prices)
qed

lemma shouldBuyConfirmedRecovery_returns:
  "\<exists>b. shouldBuyConfirmedRecovery rnd data cp d1 d2 = Inr b"
proof -
  obtain b where "isLastIntervalDownward data = Inr b"
    using two_sample_rules_return(5) by blast
  then show ?thesis by (auto simp add: shouldBuyConfirmedRecovery_def Let_def)
qed

lemma profit_taking_rule_cases:
  "profit_taking_rule st pl plp cp data = Inr None \<or>
   (\<exists>r. profit_taking_rule st pl plp cp data = Inr (Some r) \<and> dd_shouldSell r)"
proof (cases "2 \<le> length data")
  case True
  then show ?thesis
    by (simp add: profit_taking_rule_def Let_def last_two_prices)
next
  case False
  then show ?thesis
    by (simp add: profit_taking_rule_def Let_def)
qed

lemma overlay_returns:
  "\<exists>r. shouldSellWithDollarDrop tbot cp data = Inr r"
proof (cases "currentPosition tbot")
  case None
  then show ?thesis by (simp add: shouldSellWithDollarDrop_def)
next
  case (Some pos)
  let ?pl = "cp * shares pos - buyPrice pos * shares pos"
  let ?plp = "js_times (js_div ?pl (buyPrice pos * shares pos)) 100"
  from profit_taking_rule_cases [of "settings tbot" ?pl ?plp cp data]
  show ?thesis
    by (auto simp add: shouldSellWithDollarDrop_def Some Let_def)
qed

lemma dispatch_strategy_returns: "\<exists>d. dispatch_strategy rnd tbot data cp lpi = Inr d"
proof -
  let ?m = "str_or (tradingMethod (settings tbot)) ''trend_reversal''"
  obtain b1 b2 b3 b4 where two:
    "shouldBuyPriceComparison data = Inr b1" "shouldSellPriceComparison data = Inr b2"
    "shouldBuySlopeAnalysis data = Inr b3" "shouldSellSlopeAnalysis data = Inr b4"
    using two_sample_rules_return by (metis (full_types))
  obtain b5 b6 where three:
    "shouldBuyTrendReversal data = Inr b5" "shouldSellTrendReversal data = Inr b6"
    using shouldBuyTrendReversal_returns shouldSellTrendReversal_returns by blast
  obtain r1 r2 where refs:
    "shouldBuyDirectionChangeReference data cp = Inr r1"
    "shouldBuyDirectionChangeBuy data lpi = Inr r2"
    using shouldBuyDirectionChangeReference_returns shouldBuyDirectionChangeBuy_returns by blast
  obtain c where conf: "shouldBuyConfirmedRecovery rnd data cp
      (num_or (confirmedRecoveryFirstDelay (settings tbot)) 15)
      (num_or (confirmedRecoverySecondDelay (settings tbot)) 30) = Inr c"
    using shouldBuyConfirmedRecovery_returns by blast
  have reads: "2 \<le> length data \<Longrightarrow>
      \<exists>x y. price_at data (int (length data) - 1) = Inr x \<and>
        price_at data (int (length data) - 2) = Inr y"
    by (simp add: last_two_prices)
  consider (pc) "?m = ''price_comparison''" | (sa) "?m = ''slope_analysis''"
    | (dcr) "?m = ''direction_change_reference''" | (dcb) "?m = ''direction_change_buy''"
    | (cr) "?m = ''confirmed_recovery''"
    | (tr) "?m \<noteq> ''price_comparison''" "?m \<noteq> ''slope_analysis''"
        "?m \<noteq> ''direction_change_reference''" "?m \<noteq> ''direction_change_buy''"
        "?m \<noteq> ''confirmed_recovery''"
    by blast
  then show ?thesis
  proof cases
    case pc
    show ?thesis
    proof (cases "2 \<le> length data")
      case True
      from reads [OF True] obtain x y where
        "price_at data (int (length data) - 1) = Inr x"
        "price_at data (int (length data) - 2) = Inr y" by blast
      with pc True show ?thesis
        by (cases "currentPosition tbot") (simp_all add: dispatch_strategy_def Let_def two)
    next
      case False
      with pc show ?thesis
        by (cases "currentPosition tbot") (simp_all add: dispatch_strategy_def Let_def two)
    qed
  next
    case sa
    show ?thesis
    proof (cases "2 \<le> length data")
      case True
      from reads [OF True] obtain x y where
        "price_at data (int (length data) - 1) = Inr x"
        "price_at data (int (length data) - 2) = Inr y" by blast
      with sa True show ?thesis
        by (cases "currentPosition tbot") (simp_all add: dispatch_strategy_def Let_def two)
    next
      case False
      with sa show ?thesis
        by (cases "currentPosition tbot") (simp_all add: dispatch_strategy_def Let_def two)
    qed
  next
    case dcr
    then show ?thesis
      by (cases "currentPosition tbot"; cases r1; cases "snd r1";
          cases "shouldSellDirectionChangeReference tbot cp")
        (simp_all add: dispatch_strategy_def Let_def refs)
  next
    case dcb
    then show ?thesis
      by (cases "currentPosition tbot"; cases r2; cases "snd r2")
        (simp_all add: dispatch_strategy_def Let_def refs three)
  next
    case cr
    then show ?thesis
      by (cases "currentPosition tbot"; cases c)
        (simp_all add: dispatch_strategy_def Let_def conf three)
  next
    case tr
    then show ?thesis
      by (cases "currentPosition tbot") (simp_all add: dispatch_strategy_def Let_def three)
  qed
qed

lemma makeTradingDecision_returns:
  "\<exists>d. makeTradingDecision rnd tbot data cp lpi = Inr d"
proof -
  obtain r where "shouldSellWithDollarDrop tbot cp data = Inr r"
    using overlay_returns by blast
  moreover obtain d where "dispatch_strategy rnd tbot data cp lpi = Inr d"
    using dispatch_strategy_returns by blast
  ultimately show ?thesis by (simp add: makeTradingDecision_def)
qed

text \<open>What the overlay returns, and what the dispatch depends on.\<close>

lemma overlay_sell_at_buy_price:
  assumes "currentPosition tbot = Some pos"
    and "truthy (sellAtBuyPriceEnabled (settings tbot))" and "cp \<le> buyPrice pos"
  shows "\<exists>r. shouldSellWithDollarDrop tbot cp data = Inr r \<and> dd_shouldSell r"
proof -
  let ?pl = "cp * shares pos - buyPrice pos * shares pos"
  let ?plp = "js_times (js_div ?pl (buyPrice pos * shares pos)) 100"
  from profit_taking_rule_cases [of "settings tbot" ?pl ?plp cp data]
  show ?thesis using assms
    by (auto simp add: shouldSellWithDollarDrop_def Let_def)
qed

lemma overlay_update_iff_tracking:
  assumes "currentPosition tbot = Some pos"
    and "shouldSellWithDollarDrop tbot cp data = Inr r" and "\<not> dd_shouldSell r"
  shows "dd_updatePosition r \<noteq> None \<longleftrightarrow> truthy (consecutiveFallsEnabled (settings tbot))"
proof -
  let ?pl = "cp * shares pos - buyPrice pos * shares pos"
  let ?plp = "js_times (js_div ?pl (buyPrice pos * shares pos)) 100"
  from profit_taking_rule_cases [of "settings tbot" ?pl ?plp cp data]
  show ?thesis using assms
    by (auto simp add: shouldSellWithDollarDrop_def Let_def split: if_splits)
qed

lemma confirmed_recovery_draws:
  "isLastIntervalDownward data \<noteq> Inr True \<Longrightarrow>
   shouldBuyConfirmedRecovery rnd data cp d1 d2 = shouldBuyConfirmedRecovery rnd' data cp d1 d2"
  by (cases "isLastIntervalDownward data") (auto simp: shouldBuyConfirmedRecovery_def)

lemma dispatch_draws:
  assumes "\<not> (currentPosition tbot = None \<and>
      str_or (tradingMethod (settings tbot)) ''trend_reversal'' = ''confirmed_recovery'' \<and>
      isLastIntervalDownward data = Inr True)"
  shows "dispatch_strategy rnd tbot data cp lpi = dispatch_strategy rnd' tbot data cp lpi"
proof (cases "str_or (tradingMethod (settings tbot)) ''trend_reversal'' = ''confirmed_recovery''")
  case False
  then show ?thesis by (simp add: dispatch_strategy_def Let_def)
next
  case True
  show ?thesis
  proof (cases "currentPosition tbot = None")
    case False
    then obtain pos where "currentPosition tbot = Some pos" by auto
    with True show ?thesis by (simp add: dispatch_strategy_def Let_def)
  next
    case none: True
    with True assms have "isLastIntervalDownward data \<noteq> Inr True" by simp
    then have "shouldBuyConfirmedRecovery rnd data cp d1 d2 =
        shouldBuyConfirmedRecovery rnd' data cp d1 d2" for d1 d2
      by (rule confirmed_recovery_draws)
    with True none show ?thesis
      by (simp add: dispatch_strategy_def Let_def)
  qed
qed

lemma dispatch_price_free:
  assumes "str_or (tradingMethod (settings tbot)) ''trend_reversal'' = ''price_comparison'' \<or>
      str_or (tradingMethod (settings tbot)) ''trend_reversal'' = ''slope_analysis''"
  shows "dispatch_strategy rnd tbot data cp lpi = dispatch_strategy rnd tbot data cp' lpi"
  using assms by (auto simp add: dispatch_strategy_def Let_def)

text \<open>
  C7. An active bot that holds a position bought at 20, with \<open>dollarDropEnabled\<close> and
  \<open>sellAtBuyPriceEnabled\<close> set, is told SELL at the current price 19.99, whatever its
  trading method, its other settings and the series.
\<close>

theorem sell_at_buy_price_overrides_method:
  assumes "isActive tbot" and "currentPosition tbot = Some pos" and "buyPrice pos = 20"
    and "truthy (dollarDropEnabled (settings tbot))"
    and "truthy (sellAtBuyPriceEnabled (settings tbot))"
  shows "\<exists>d. makeTradingDecision rnd tbot data 19.99 lastProcessedIndex = Inr d \<and> action d = SELL"
proof -
  have "(19.99::real) \<le> buyPrice pos" using assms(3) by simp
  from overlay_sell_at_buy_price [OF assms(2) assms(5) this]
  obtain r where "shouldSellWithDollarDrop tbot 19.99 data = Inr r" "dd_shouldSell r"
    by blast
  then show ?thesis using assms(1,2,4)
    by (simp add: makeTradingDecision_def decision_of_def)
qed

theorem sell_at_buy_price_overrides_method_witness:
  "isActive (guarded_bot ''price_comparison'') \<and>
   currentPosition (guarded_bot ''price_comparison'') = Some (position_at 20) \<and>
   buyPrice (position_at 20) = 20 \<and>
   truthy (dollarDropEnabled (settings (guarded_bot ''price_comparison''))) \<and>
   truthy (sellAtBuyPriceEnabled (settings (guarded_bot ''price_comparison''))) \<and>
   map_sum id action
     (makeTradingDecision (0, 0) (guarded_bot ''price_comparison'') series_A 19.99 None) = Inr SELL"
proof -
  have h: "isActive (guarded_bot ''price_comparison'')"
    "currentPosition (guarded_bot ''price_comparison'') = Some (position_at 20)"
    "buyPrice (position_at 20) = 20"
    "truthy (dollarDropEnabled (settings (guarded_bot ''price_comparison'')))"
    "truthy (sellAtBuyPriceEnabled (settings (guarded_bot ''price_comparison'')))"
    by (simp_all add: guarded_bot_def position_at_def settings_for_def truthy_def)
  from sell_at_buy_price_overrides_method [OF h, of "(0, 0)" series_A None]
  show ?thesis using h by auto
qed

text \<open>
  C1, as the code has it. For an active bot with \<open>dollarDropEnabled\<close> and an open
  position, when the overlay does not return SELL: if \<open>consecutiveFallsEnabled\<close> is set,
  \<open>makeTradingDecision\<close> returns HOLD with the overlay's reason and its position update;
  otherwise it returns what the dispatch on \<open>settings.tradingMethod\<close> returns.
\<close>

theorem overlay_fall_through:
  assumes "isActive tbot" and "truthy (dollarDropEnabled (settings tbot))"
    and "currentPosition tbot = Some pos"
    and "shouldSellWithDollarDrop tbot cp data = Inr r" and "\<not> dd_shouldSell r"
  shows "makeTradingDecision rnd tbot data cp lastProcessedIndex =
     (if truthy (consecutiveFallsEnabled (settings tbot)) then
        Inr ((decision_of HOLD (dd_reason r))\<lparr>updatePosition := dd_updatePosition r\<rparr>)
      else dispatch_strategy rnd tbot data cp lastProcessedIndex)"
  using assms overlay_update_iff_tracking [OF assms(3,4,5)]
  by (simp add: makeTradingDecision_def)

theorem overlay_fall_through_witness:
  "isActive idle_overlay_bot \<and> truthy (dollarDropEnabled (settings idle_overlay_bot)) \<and>
   currentPosition idle_overlay_bot = Some (position_at 10) \<and>
   shouldSellWithDollarDrop idle_overlay_bot 11 peak_series =
     Inr \<lparr>dd_shouldSell = False, dd_reason = [Txt ''Dollar Drop conditions not met''],
          dd_updatePosition = None\<rparr> \<and>
   makeTradingDecision (0, 0) idle_overlay_bot peak_series 11 None =
     dispatch_strategy (0, 0) idle_overlay_bot peak_series 11 None"
proof -
  have h: "isActive idle_overlay_bot" "truthy (dollarDropEnabled (settings idle_overlay_bot))"
    "currentPosition idle_overlay_bot = Some (position_at 10)"
    by (simp_all add: idle_overlay_bot_def settings_for_def truthy_def)
  have r: "shouldSellWithDollarDrop idle_overlay_bot 11 peak_series =
     Inr \<lparr>dd_shouldSell = False, dd_reason = [Txt ''Dollar Drop conditions not met''],
          dd_updatePosition = None\<rparr>"
    by (simp add: shouldSellWithDollarDrop_def idle_overlay_bot_def settings_for_def truthy_def
        position_at_def profit_taking_rule_def Let_def)
  have "\<not> truthy (consecutiveFallsEnabled (settings idle_overlay_bot))"
    by (simp add: idle_overlay_bot_def settings_for_def truthy_def)
  with overlay_fall_through [OF h r, of "(0, 0)" None] h r show ?thesis by simp
qed

text \<open>
  The claim lets every call in which the overlay does not sell fall through. A bot that
  tracks consecutive falls, bought at 10 and now at 11, over the series 1, 2, 1: the overlay
  does not sell, the trend-reversal rule would sell at the peak, and the decision is HOLD.
\<close>

theorem overlay_fall_through_counterexample:
  "isActive tracking_bot \<and> truthy (dollarDropEnabled (settings tracking_bot)) \<and>
   currentPosition tracking_bot \<noteq> None \<and>
   map_sum id dd_shouldSell (shouldSellWithDollarDrop tracking_bot 11 peak_series) = Inr False \<and>
   map_sum id action (makeTradingDecision (0, 0) tracking_bot peak_series 11 None) = Inr HOLD \<and>
   map_sum id action (dispatch_strategy (0, 0) tracking_bot peak_series 11 None) = Inr SELL"
  by code_simp

text \<open>
  C2, as the code has it. The decision is a function of the arguments and of the two
  values that \<open>Math.random\<close> returns. It does not depend on those values, so that two
  calls with the same arguments return the same decision (action, reason and optional
  fields), unless the bot is active, holds no position, trades by \<open>confirmed_recovery\<close>
  and the last interval of the series falls.
\<close>

theorem decision_independent_of_draws:
  assumes "\<not> (isActive tbot \<and> currentPosition tbot = None \<and>
      str_or (tradingMethod (settings tbot)) ''trend_reversal'' = ''confirmed_recovery'' \<and>
      isLastIntervalDownward data = Inr True)"
  shows "\<exists>d. makeTradingDecision rnd tbot data cp lastProcessedIndex = Inr d \<and>
             makeTradingDecision rnd' tbot data cp lastProcessedIndex = Inr d"
proof -
  have same: "makeTradingDecision rnd tbot data cp lastProcessedIndex =
      makeTradingDecision rnd' tbot data cp lastProcessedIndex"
  proof (cases "isActive tbot")
    case False
    then show ?thesis by (simp add: makeTradingDecision_def)
  next
    case True
    with assms have eq: "dispatch_strategy rnd tbot data cp lastProcessedIndex =
        dispatch_strategy rnd' tbot data cp lastProcessedIndex"
      by (intro dispatch_draws) simp
    show ?thesis unfolding makeTradingDecision_def eq ..
  qed
  obtain d where "makeTradingDecision rnd tbot data cp lastProcessedIndex = Inr d"
    using makeTradingDecision_returns by blast
  with same show ?thesis by metis
qed

theorem decision_independent_of_draws_witness:
  "isLastIntervalDownward series_A = Inr True \<and>
   currentPosition (guarded_bot ''confirmed_recovery'') \<noteq> None \<and>
   makeTradingDecision (1 / 4, 3 / 4) (guarded_bot ''confirmed_recovery'') series_A 25 None =
   makeTradingDecision (3 / 4, 3 / 4) (guarded_bot ''confirmed_recovery'') series_A 25 None"
proof -
  have h: "currentPosition (guarded_bot ''confirmed_recovery'') \<noteq> None"
    by (simp add: guarded_bot_def)
  have "isLastIntervalDownward series_A = Inr True"
    by (simp add: isLastIntervalDownward_def series_A_def sample_def price_at_def elem_at_def)
  with h decision_independent_of_draws
    [of "guarded_bot ''confirmed_recovery''" series_A "(1 / 4, 3 / 4)" 25 None "(3 / 4, 3 / 4)"]
  show ?thesis by auto
qed

text \<open>
  The claim includes \<open>confirmed_recovery\<close>. Two calls with the same bot, series and
  price, the first drawing 0.25 then 0.75 and the second drawing 0.75: BUY and HOLD.
\<close>

theorem same_arguments_counterexample:
  "map_sum id action (makeTradingDecision (1 / 4, 3 / 4) recovery_bot falling_pair 9 None) = Inr BUY \<and>
   map_sum id action (makeTradingDecision (3 / 4, 3 / 4) recovery_bot falling_pair 9 None) = Inr HOLD"
  by code_simp

text \<open>
  C10. For a bot that trades by \<open>price_comparison\<close> or \<open>slope_analysis\<close>, two calls
  that differ only in \<open>currentPrice\<close>, neither intercepted by the overlay, return the
  same decision: action, reason and optional fields.
\<close>

theorem live_price_ignored:
  assumes "str_or (tradingMethod (settings tbot)) ''trend_reversal'' = ''price_comparison'' \<or>
      str_or (tradingMethod (settings tbot)) ''trend_reversal'' = ''slope_analysis''"
    and "\<not> overlay_intercepts tbot data cp" and "\<not> overlay_intercepts tbot data cp'"
  shows "\<exists>d. makeTradingDecision rnd tbot data cp lastProcessedIndex = Inr d \<and>
             makeTradingDecision rnd tbot data cp' lastProcessedIndex = Inr d"
proof -
  note free = dispatch_price_free [OF assms(1), of rnd data cp lastProcessedIndex cp']
  obtain r r' where r: "shouldSellWithDollarDrop tbot cp data = Inr r"
    "shouldSellWithDollarDrop tbot cp' data = Inr r'"
    using overlay_returns by meson
  have same: "makeTradingDecision rnd tbot data cp lastProcessedIndex =
      makeTradingDecision rnd tbot data cp' lastProcessedIndex"
    using assms(2,3) free r
    by (auto simp add: makeTradingDecision_def overlay_intercepts_def)
  obtain d where "makeTradingDecision rnd tbot data cp lastProcessedIndex = Inr d"
    using makeTradingDecision_returns by blast
  with same show ?thesis by metis
qed

theorem live_price_ignored_witness:
  "\<not> overlay_intercepts comparison_bot series_A 1 \<and>
   \<not> overlay_intercepts comparison_bot series_A 100 \<and>
   makeTradingDecision (0, 0) comparison_bot series_A 1 None =
   makeTradingDecision (0, 0) comparison_bot series_A 100 None \<and>
   makeTradingDecision (0, 0) comparison_bot series_A 100 None =
     Inr (decision_of HOLD
       [Txt ''Current price '', ToFixed 2 (Fin 9), Txt '' <= previous price '',
        ToFixed 2 (Fin 13)])"
proof -
  have m: "str_or (tradingMethod (settings comparison_bot)) ''trend_reversal'' = ''price_comparison'' \<or>
      str_or (tradingMethod (settings comparison_bot)) ''trend_reversal'' = ''slope_analysis''"
    by (simp add: comparison_bot_def settings_for_def str_or_def)
  have n: "\<not> overlay_intercepts comparison_bot series_A 1"
    "\<not> overlay_intercepts comparison_bot series_A 100"
    by (simp_all add: overlay_intercepts_def comparison_bot_def)
  have v: "makeTradingDecision (0, 0) comparison_bot series_A 100 None =
     Inr (decision_of HOLD
       [Txt ''Current price '', ToFixed 2 (Fin 9), Txt '' <= previous price '',
        ToFixed 2 (Fin 13)])"
    by (simp add: makeTradingDecision_def comparison_bot_def settings_for_def truthy_def
        dispatch_strategy_def str_or_def shouldBuyPriceComparison_def series_A_def sample_def
        price_at_def elem_at_def Let_def)
  from live_price_ignored [OF m n, of "(0, 0)" None] n v show ?thesis by auto
qed

end
